theory Spec2Isabelle
  imports Complex_Main "HOL-Library.AList"
begin

section \<open>Nonbonded-proxy processing: clashes and hydrogen bonds\<close>

text \<open>
  A shallow embedding of \<^verbatim>\<open>cctbx/geometry_restraints/process_nonbonded_proxies.py\<close>.
  Atom indices (\<^verbatim>\<open>i_seq\<close>) are natural numbers, Python floats are read as real
  numbers, exceptions are values of the type \<open>error\<close> (\<open>Inl\<close> of a sum), Python lists and
  flex arrays are lists whose out-of-range reads raise \<open>IndexError\<close>, and insertion-ordered
  dictionaries are association lists with distinct keys.
\<close>

subsection \<open>Errors and container reads\<close>

datatype error =
  IndexError | KeyError | AssertionError | TypeError | AttributeError | NameError | RuntimeError

definition ebind :: "error + 'a \<Rightarrow> ('a \<Rightarrow> error + 'b) \<Rightarrow> error + 'b" where
  "ebind m f = (case m of Inl e \<Rightarrow> Inl e | Inr v \<Rightarrow> f v)"

definition nth_err :: "'a list \<Rightarrow> nat \<Rightarrow> error + 'a" where
  "nth_err xs i = (if i < length xs then Inr (xs ! i) else Inl IndexError)"

definition get_err :: "('k \<rightharpoonup> 'v) \<Rightarrow> 'k \<Rightarrow> error + 'v" where
  "get_err m k = (case m k of None \<Rightarrow> Inl KeyError | Some v \<Rightarrow> Inr v)"

subsection \<open>The 1-5 interaction test\<close>

text \<open>
  \<^verbatim>\<open>full_connectivity_table\<close> is a dictionary from an atom to the list of the atoms bonded
  to it, \<^verbatim>\<open>hd_sel\<close> a boolean array. The loop \<^verbatim>\<open>for i in range(2,6)\<close> carries
  \<^verbatim>\<open>new_connections\<close>, \<^verbatim>\<open>used_connections\<close> and \<^verbatim>\<open>atoms_numbers\<close>.
\<close>

type_synonym connectivity = "nat \<rightharpoonup> nat list"

type_synonym expansion = "nat set \<times> nat set \<times> (nat \<rightharpoonup> nat)"

definition xor_py :: "bool \<Rightarrow> bool \<Rightarrow> bool" where
  "xor_py a b = ((a \<or> b) \<and> \<not> (a \<and> b))"

text \<open>The inner loop \<^verbatim>\<open>for key in new_connections: connections = connections.union(...)\<close>;
  a key without an entry raises \<open>KeyError\<close>.\<close>

definition connections_of :: "connectivity \<Rightarrow> nat set \<Rightarrow> error + nat set" where
  "connections_of fct new_connections =
     (if \<exists>key\<in>new_connections. fct key = None then Inl KeyError
      else Inr (\<Union>key\<in>new_connections. (case fct key of None \<Rightarrow> {} | Some l \<Rightarrow> set l)))"

definition expand_step :: "connectivity \<Rightarrow> nat \<Rightarrow> expansion \<Rightarrow> error + expansion" where
  "expand_step fct i st =
     (case st of (new_connections, used_connections, atoms_numbers) \<Rightarrow>
        (case connections_of fct new_connections of
           Inl e \<Rightarrow> Inl e
         | Inr connections \<Rightarrow>
             Inr (connections - used_connections,
                  used_connections \<union> connections,
                  (\<lambda>a. if a \<in> connections - used_connections then Some i
                       else atoms_numbers a))))"

fun expand_loop :: "connectivity \<Rightarrow> nat list \<Rightarrow> expansion \<Rightarrow> error + expansion" where
  "expand_loop fct [] st = Inr st"
| "expand_loop fct (i # is) st =
     (case expand_step fct i st of Inl e \<Rightarrow> Inl e | Inr st' \<Rightarrow> expand_loop fct is st')"

definition check_if_1_5_interaction ::
  "nat \<Rightarrow> nat \<Rightarrow> bool list \<Rightarrow> connectivity \<Rightarrow> error + bool" where
  "check_if_1_5_interaction i_seq j_seq hd_sel full_connectivity_table =
     (case nth_err hd_sel i_seq of
        Inl e \<Rightarrow> Inl e
      | Inr hi \<Rightarrow>
     (case nth_err hd_sel j_seq of
        Inl e \<Rightarrow> Inl e
      | Inr hj \<Rightarrow>
          if xor_py hi hj then
            (case (if \<not> hi then (j_seq, i_seq) else (i_seq, j_seq)) of (i, j) \<Rightarrow>
               (case expand_loop full_connectivity_table [2, 3, 4, 5]
                       ({i}, {i}, [i \<mapsto> 0]) of
                  Inl e \<Rightarrow> Inl e
                | Inr (new_connections, used_connections, atoms_numbers) \<Rightarrow>
                    Inr (atoms_numbers j = Some 5)))
          else Inr False))"

subsection \<open>The collinearity score\<close>

text \<open>
  Modelled from the spec: the vector operations of \<^verbatim>\<open>scitbx.matrix.col\<close> that
  \<^verbatim>\<open>cos_vec\<close> and the hydrogen-bond test use (difference, sum, division by a number, dot
  product, length, \<^verbatim>\<open>normalize\<close>, \<^verbatim>\<open>angle\<close>) are not part of the sources read
  here. \<^verbatim>\<open>normalize\<close> divides by the length and so raises \<^verbatim>\<open>ZeroDivisionError\<close> on
  a vector of length zero, which is the value \<open>None\<close> of \<open>vec_normalize\<close>; \<^verbatim>\<open>angle\<close>
  returns \<^verbatim>\<open>None\<close> for a vector of length zero and clips the cosine to \<open>[-1, 1]\<close>.
\<close>

type_synonym vec3 = "real \<times> real \<times> real"

definition vec_sub :: "vec3 \<Rightarrow> vec3 \<Rightarrow> vec3" where
  "vec_sub a b = (case a of (a1, a2, a3) \<Rightarrow> case b of (b1, b2, b3) \<Rightarrow> (a1 - b1, a2 - b2, a3 - b3))"

definition vec_add :: "vec3 \<Rightarrow> vec3 \<Rightarrow> vec3" where
  "vec_add a b = (case a of (a1, a2, a3) \<Rightarrow> case b of (b1, b2, b3) \<Rightarrow> (a1 + b1, a2 + b2, a3 + b3))"

definition vec_div :: "vec3 \<Rightarrow> real \<Rightarrow> vec3" where
  "vec_div a c = (case a of (a1, a2, a3) \<Rightarrow> (a1 / c, a2 / c, a3 / c))"

definition vec_dot :: "vec3 \<Rightarrow> vec3 \<Rightarrow> real" where
  "vec_dot a b = (case a of (a1, a2, a3) \<Rightarrow> case b of (b1, b2, b3) \<Rightarrow> a1 * b1 + a2 * b2 + a3 * b3)"

definition vec_length :: "vec3 \<Rightarrow> real" where
  "vec_length a = sqrt (vec_dot a a)"

definition vec_normalize :: "vec3 \<Rightarrow> vec3 option" where
  "vec_normalize a = (if vec_length a = 0 then None else Some (vec_div a (vec_length a)))"

definition cos_vec :: "vec3 \<Rightarrow> vec3 \<Rightarrow> vec3 \<Rightarrow> real" where
  "cos_vec u v w =
     (let vec1 = vec_sub w (vec_add (vec_div u 2) (vec_div v 2));
          vec2 = vec_sub u v
      in case vec_normalize vec1 of
           None \<Rightarrow> 1
         | Some n1 \<Rightarrow> (case vec_normalize vec2 of None \<Rightarrow> 1 | Some n2 \<Rightarrow> \<bar>vec_dot n1 n2\<bar>))"


definition vec_angle :: "vec3 \<Rightarrow> vec3 \<Rightarrow> real option" where
  "vec_angle a b =
     (if vec_dot a a = 0 \<or> vec_dot b b = 0 then None
      else Some (arccos (max (- 1) (min 1 (vec_dot a b / sqrt (vec_dot a a * vec_dot b b))))))"

definition degrees :: "real \<Rightarrow> real" where
  "degrees x = x * 180 / pi"

text \<open>
  Modelled from the spec: \<^verbatim>\<open>approx_equal\<close> of \<^verbatim>\<open>libtbx.test_utils\<close> is not part of the
  sources read here; the two numbers agree when they differ by at most the tolerance.
\<close>

definition approx_equal :: "real \<Rightarrow> real \<Rightarrow> real \<Rightarrow> bool" where
  "approx_equal a1 a2 eps = (\<not> \<bar>a1 - a2\<bar> > eps)"

subsection \<open>Python string methods used on element symbols\<close>

definition py_isspace :: "char \<Rightarrow> bool" where
  "py_isspace c = (of_char c \<in> {9, 10, 11, 12, 13, 32 :: nat})"

definition py_strip :: "string \<Rightarrow> string" where
  "py_strip s = rev (dropWhile py_isspace (rev (dropWhile py_isspace s)))"

definition py_upper :: "string \<Rightarrow> string" where
  "py_upper s =
     map (\<lambda>c. if 97 \<le> (of_char c :: nat) \<and> (of_char c :: nat) \<le> 122
              then char_of ((of_char c :: nat) - 32) else c) s"

subsection \<open>The model and the records of the registries\<close>

text \<open>
  One row of the table returned by \<^verbatim>\<open>get_sorted\<close>: \<^verbatim>\<open>item[1]\<close> to \<^verbatim>\<open>item[6]\<close>
  (\<^verbatim>\<open>item[0]\<close>, the labels, is never read). A symmetry operator is represented by its
  string form.
\<close>

record item =
  it_i_seq :: nat
  it_j_seq :: nat
  it_model_distance :: real
  it_vdw_sum :: real
  it_symop_str :: string
  it_symop :: "string option"

text \<open>What the code reads of an atom of the hierarchy: \<^verbatim>\<open>i_seq\<close>, \<^verbatim>\<open>xyz\<close>,
  \<^verbatim>\<open>element\<close>, \<^verbatim>\<open>name\<close>, \<^verbatim>\<open>parent().altloc\<close>, the residue group
  \<^verbatim>\<open>parent().parent()\<close> (by its position in the hierarchy) and that group's
  \<^verbatim>\<open>id_str()\<close>.\<close>

record atom =
  atom_i_seq :: nat
  atom_xyz :: vec3
  atom_element :: string
  atom_name :: string
  atom_altloc :: string
  atom_rg :: nat
  atom_rg_id_str :: string

text \<open>
  The model object and its restraints manager, as far as \<^verbatim>\<open>manager\<close> reads them.
  \<open>m_sorted\<close> is the first component of what \<^verbatim>\<open>get_sorted\<close> returns (\<open>None\<close> when it
  returns \<^verbatim>\<open>None\<close>), \<open>m_fsc0\<close> is \<^verbatim>\<open>shell_sym_tables[0].full_simple_connectivity()\<close>,
  \<open>m_unit_cell\<close> says whether \<^verbatim>\<open>crystal_symmetry()\<close> is present, and \<open>m_rt_mx\<close> stands for
  \<^verbatim>\<open>sgtbx.rt_mx\<close> followed by fractionalize, rotate, translate and orthogonalize: it
  parses an operator string (\<open>None\<close> when the string is no operator) into the map it
  applies to Cartesian coordinates.
\<close>

record model =
  m_atoms :: "atom list"
  m_hd_sel :: "bool list"
  m_water_sel :: "bool list"
  m_sites_cart :: "vec3 list"
  m_unit_cell :: bool
  m_fsc0 :: connectivity
  m_sorted :: "item list option"
  m_rt_mx :: "string \<Rightarrow> (vec3 \<Rightarrow> vec3) option"

text \<open>\<^verbatim>\<open>clash_info = [model_distance, vdw_sum, abs(delta), symop_str, symop]\<close>\<close>

record clash_info =
  c_model_distance :: real
  c_vdw_sum :: real
  c_overlap :: real
  c_symop_str :: string
  c_symop :: "string option"

text \<open>\<^verbatim>\<open>[h_a_distance, x_a_distance, degrees(x_h_a_angle), symop_str, symop, vdw_sum]\<close>\<close>

record hbond_info =
  hb_h_a_distance :: real
  hb_x_a_distance :: real
  hb_x_h_a_angle :: real
  hb_symop_str :: string
  hb_symop :: "string option"
  hb_vdw_sum :: real

type_synonym clashes_dict = "((nat \<times> nat) \<times> clash_info) list"

type_synonym hbonds_dict = "((nat \<times> nat \<times> nat) \<times> hbond_info) list"

type_synonym mult_clash_dict = "(nat \<times> nat list) list"

subsection \<open>Class \<^verbatim>\<open>clashes\<close>\<close>

text \<open>An object of the class is represented by its \<^verbatim>\<open>_clashes_dict\<close>.
  \<^verbatim>\<open>Sorry\<close> is not imported by the module, so \<^verbatim>\<open>raise Sorry(...)\<close> is a
  \<open>NameError\<close>. Sorting by \<^verbatim>\<open>'symmetry'\<close> compares operator objects and \<^verbatim>\<open>None\<close>,
  which fails as soon as two records are compared.\<close>

definition sort_clashes :: "string \<Rightarrow> clashes_dict \<Rightarrow> error + clashes_dict" where
  "sort_clashes by_value d =
     (if by_value \<notin> set [''vdw_distance'', ''model_distance'', ''overlap'', ''symmetry'']
      then Inl NameError
      else if by_value = ''model_distance'' then Inr (sort_key (\<lambda>x. c_model_distance (snd x)) d)
      else if by_value = ''vdw_distance'' then Inr (sort_key (\<lambda>x. c_vdw_sum (snd x)) d)
      else if by_value = ''overlap'' then Inr (sort_key (\<lambda>x. c_overlap (snd x)) d)
      else if length d \<le> 1 then Inr d
      else Inl TypeError)"

text \<open>\<^verbatim>\<open>clashes.__init__(self, clashes_dict, model)\<close>: both arguments are required; an
  argument the call does not pass is \<open>None\<close> here.\<close>

definition clashes_init :: "clashes_dict option \<Rightarrow> model option \<Rightarrow> error + clashes_dict" where
  "clashes_init clashes_dict_arg model_arg =
     (case clashes_dict_arg of
        None \<Rightarrow> Inl TypeError
      | Some d \<Rightarrow> (case model_arg of None \<Rightarrow> Inl TypeError | Some m \<Rightarrow> sort_clashes ''overlap'' d))"

definition add_clash :: "nat \<times> nat \<Rightarrow> clash_info \<Rightarrow> clashes_dict \<Rightarrow> clashes_dict" where
  "add_clash clash_tuple info d = AList.update clash_tuple info d"

definition iseq_tuple_is_clashing :: "clashes_dict \<Rightarrow> nat \<times> nat \<Rightarrow> bool" where
  "iseq_tuple_is_clashing d clash_tuple = (map_of d clash_tuple \<noteq> None)"

definition remove_clash :: "nat \<times> nat \<Rightarrow> clashes_dict \<Rightarrow> clashes_dict" where
  "remove_clash clash_tuple d =
     (if iseq_tuple_is_clashing d clash_tuple then AList.delete clash_tuple d else d)"

definition iseq_tuple_is_sym_clash :: "clashes_dict \<Rightarrow> nat \<times> nat \<Rightarrow> error + string option" where
  "iseq_tuple_is_sym_clash d clash_tuple =
     (case get_err (map_of d) clash_tuple of Inl e \<Rightarrow> Inl e | Inr r \<Rightarrow> Inr (c_symop r))"

definition get_model_distance :: "clashes_dict \<Rightarrow> nat \<times> nat \<Rightarrow> error + real" where
  "get_model_distance d clash_tuple =
     (case get_err (map_of d) clash_tuple of Inl e \<Rightarrow> Inl e | Inr r \<Rightarrow> Inr (c_model_distance r))"

definition get_n_clashes :: "clashes_dict \<Rightarrow> nat" where
  "get_n_clashes d = length d"

subsection \<open>Class \<^verbatim>\<open>hbonds\<close>\<close>

definition hbonds_init :: "hbonds_dict option \<Rightarrow> model option \<Rightarrow> error + hbonds_dict" where
  "hbonds_init hbonds_dict_arg model_arg =
     (case hbonds_dict_arg of
        None \<Rightarrow> Inl TypeError
      | Some d \<Rightarrow> (case model_arg of None \<Rightarrow> Inl TypeError | Some m \<Rightarrow> Inr d))"

definition get_n_hbonds :: "hbonds_dict \<Rightarrow> nat" where
  "get_n_hbonds d = length d"

text \<open>Attribute lookup on an \<^verbatim>\<open>hbonds\<close> object, for the methods that take no argument
  and return a number: the class defines \<^verbatim>\<open>get_n_hbonds\<close> and no other; a name the
  class does not define raises \<open>AttributeError\<close>.\<close>

definition hbonds_count_method :: "string \<Rightarrow> error + (hbonds_dict \<Rightarrow> nat)" where
  "hbonds_count_method name =
     (if name = ''get_n_hbonds'' then Inr get_n_hbonds else Inl AttributeError)"


subsection \<open>Class \<^verbatim>\<open>manager\<close>: the hydrogen-bond test\<close>

text \<open>The state the pipeline works on: the \<^verbatim>\<open>_clashes\<close> object and the attributes
  \<^verbatim>\<open>_hbonds_dict\<close> and \<^verbatim>\<open>_mult_clash_dict\<close>.\<close>

record pstate =
  clashes_of :: clashes_dict
  hbonds_dict_of :: hbonds_dict
  mult_clash_dict_of :: mult_clash_dict

definition rg_atoms :: "model \<Rightarrow> atom \<Rightarrow> atom list" where
  "rg_atoms m a = filter (\<lambda>b. atom_rg b = atom_rg a) (m_atoms m)"

text \<open>\<^verbatim>\<open>_residue_groups_rt_mx_ij\<close>; the two detached residue groups it also returns are
  not read by the caller. \<^verbatim>\<open>str(symop)\<close> of \<^verbatim>\<open>None\<close> is \<^verbatim>\<open>'None'\<close>.\<close>

definition residue_groups_rt_mx_ij ::
  "model \<Rightarrow> atom \<Rightarrow> atom \<Rightarrow> string \<Rightarrow> string option \<Rightarrow> error + atom \<times> atom" where
  "residue_groups_rt_mx_ij m atom1 atom2 symop_str symop =
     (if symop_str \<noteq> [] \<and> m_unit_cell m then
        (case m_rt_mx m (case symop of None \<Rightarrow> ''None'' | Some s \<Rightarrow> s) of
           None \<Rightarrow> Inl RuntimeError
         | Some rt_mx_ji \<Rightarrow>
             (let rg2 = map (\<lambda>a. a\<lparr>atom_xyz := rt_mx_ji (atom_xyz a)\<rparr>) (rg_atoms m atom2)
              in case find (\<lambda>a. atom_name a = atom_name atom2 \<and> atom_altloc a = atom_altloc atom2) rg2 of
                   None \<Rightarrow> Inr (atom1, atom2)
                 | Some a \<Rightarrow> Inr (atom1, a)))
      else Inr (atom1, atom2))"

text \<open>The loop \<^verbatim>\<open>for iseq_x in iseq_x_list\<close> of \<^verbatim>\<open>_is_hbond\<close>. The conjunction of the
  thresholds is evaluated left to right, so \<^verbatim>\<open>math.degrees\<close> meets an undefined angle
  (a \<open>TypeError\<close>) only when both distances are in range.\<close>

fun hbond_search ::
  "model \<Rightarrow> item \<Rightarrow> atom \<Rightarrow> atom \<Rightarrow> nat list \<Rightarrow> hbonds_dict \<Rightarrow> error + bool \<times> hbonds_dict" where
  "hbond_search m item atom_h atom_a [] hb = Inr (False, hb)"
| "hbond_search m item atom_h atom_a (iseq_x # rest) hb =
     (case nth_err (m_atoms m) iseq_x of
        Inl e \<Rightarrow> Inl e
      | Inr atom_x \<Rightarrow>
          (let xyz_h = atom_xyz atom_h; xyz_a = atom_xyz atom_a; xyz_x = atom_xyz atom_x;
               h_a_distance = vec_length (vec_sub xyz_h xyz_a)
           in if \<not> approx_equal h_a_distance (it_model_distance item) (1 / 10)
              then Inl AssertionError
              else
                (let x_a_distance = vec_length (vec_sub xyz_x xyz_a);
                     x_h_a_angle = vec_angle (vec_sub xyz_h xyz_a) (vec_sub xyz_h xyz_x)
                 in if (h_a_distance \<ge> 12 / 10 \<and> h_a_distance \<le> 22 / 10) \<and>
                       (x_a_distance \<ge> 22 / 10 \<and> x_a_distance \<le> 32 / 10)
                    then (case x_h_a_angle of
                            None \<Rightarrow> Inl TypeError
                          | Some ang \<Rightarrow>
                              if degrees ang \<ge> 110
                              then Inr (True,
                                     AList.update
                                       (atom_i_seq atom_x, atom_i_seq atom_h, atom_i_seq atom_a)
                                       \<lparr>hb_h_a_distance = h_a_distance,
                                        hb_x_a_distance = x_a_distance,
                                        hb_x_h_a_angle = degrees ang,
                                        hb_symop_str = it_symop_str item,
                                        hb_symop = it_symop item,
                                        hb_vdw_sum = it_vdw_sum item\<rparr> hb)
                              else hbond_search m item atom_h atom_a rest hb)
                    else hbond_search m item atom_h atom_a rest hb)))"

definition is_hbond :: "model \<Rightarrow> item \<Rightarrow> hbonds_dict \<Rightarrow> error + bool \<times> hbonds_dict" where
  "is_hbond m item hb =
     ebind (nth_err (m_atoms m) (it_i_seq item)) (\<lambda>atom1.
     ebind (nth_err (m_atoms m) (it_j_seq item)) (\<lambda>atom2.
     ebind (nth_err (m_water_sel m) (it_i_seq item)) (\<lambda>w1.
     ebind (if w1 then Inr True else nth_err (m_water_sel m) (it_j_seq item)) (\<lambda>w.
       if w then Inr (False, hb)
       else if atom_rg_id_str atom1 = atom_rg_id_str atom2 then Inr (False, hb)
       else
         ebind (residue_groups_rt_mx_ij m atom1 atom2 (it_symop_str item) (it_symop item))
           (\<lambda>(atom1, atom2).
         ebind (nth_err (m_hd_sel m) (atom_i_seq atom1)) (\<lambda>h1.
         ebind (if h1 then Inr (atom1, atom2)
                else ebind (nth_err (m_hd_sel m) (atom_i_seq atom2))
                       (\<lambda>h2. if h2 then Inr (atom2, atom1) else Inl NameError))
           (\<lambda>(atom_h, atom_a).
              if py_upper (py_strip (atom_element atom_a)) \<notin> set [''O'', ''N'', ''S'', ''F'', ''CL'']
              then Inr (False, hb)
              else ebind (get_err (m_fsc0 m) (atom_i_seq atom_h))
                     (\<lambda>iseq_x_list. hbond_search m item atom_h atom_a iseq_x_list hb))))))))"

subsection \<open>Class \<^verbatim>\<open>manager\<close>: the clash test\<close>

text \<open>\<^verbatim>\<open>if (k not in self._mult_clash_dict): self._mult_clash_dict[k] = list()\<close> and
  \<^verbatim>\<open>self._mult_clash_dict[k].append(v)\<close>; the second is only run on a key the first has
  made sure of.\<close>

definition mult_ensure :: "nat \<Rightarrow> mult_clash_dict \<Rightarrow> mult_clash_dict" where
  "mult_ensure k d = (if map_of d k = None then AList.update k [] d else d)"

definition mult_append :: "nat \<Rightarrow> nat \<Rightarrow> mult_clash_dict \<Rightarrow> mult_clash_dict" where
  "mult_append k v d = (case map_of d k of None \<Rightarrow> d | Some l \<Rightarrow> AList.update k (l @ [v]) d)"

definition is_clash :: "model \<Rightarrow> nat \<Rightarrow> nat \<Rightarrow> mult_clash_dict \<Rightarrow> error + bool \<times> mult_clash_dict" where
  "is_clash m i_seq j_seq mult =
     (case check_if_1_5_interaction i_seq j_seq (m_hd_sel m) (m_fsc0 m) of
        Inl e \<Rightarrow> Inl e
      | Inr is_1_5_interaction \<Rightarrow>
          if \<not> is_1_5_interaction
          then Inr (True,
                 mult_append j_seq i_seq (mult_append i_seq j_seq
                   (mult_ensure j_seq (mult_ensure i_seq mult))))
          else Inr (False, mult))"

text \<open>\<^verbatim>\<open>clash_tuple = [i_seq, j_seq]; clash_tuple.sort(); tuple(clash_tuple)\<close>\<close>

definition sorted_tuple :: "nat \<Rightarrow> nat \<Rightarrow> nat \<times> nat" where
  "sorted_tuple a b = (if b < a then (b, a) else (a, b))"

subsection \<open>The loop over the nonbonded proxies\<close>

text \<open>The two halves of the loop body of \<^verbatim>\<open>_process_nonbonded_proxies\<close>, for one
  \<^verbatim>\<open>item\<close>: \<^verbatim>\<open>if find_hbonds: ...\<close> and \<^verbatim>\<open>if find_clashes: ...\<close>.\<close>

definition find_hbonds_step :: "model \<Rightarrow> item \<Rightarrow> pstate \<Rightarrow> error + pstate" where
  "find_hbonds_step m item st =
     (if it_model_distance item < 3 then
        ebind (nth_err (m_hd_sel m) (it_i_seq item)) (\<lambda>hi.
        ebind (nth_err (m_hd_sel m) (it_j_seq item)) (\<lambda>hj.
          if count_list [hi, hj] True = 1
          then ebind (is_hbond m item (hbonds_dict_of st))
                 (\<lambda>(is_hb, hb). Inr (st\<lparr>hbonds_dict_of := hb\<rparr>))
          else Inr st))
      else Inr st)"

definition find_clashes_step :: "model \<Rightarrow> item \<Rightarrow> pstate \<Rightarrow> error + pstate" where
  "find_clashes_step m item st =
     (let delta = it_model_distance item - it_vdw_sum item
      in if delta < - (40 / 100) then
           ebind (is_clash m (it_i_seq item) (it_j_seq item) (mult_clash_dict_of st))
             (\<lambda>(is_cl, mult).
                if is_cl
                then Inr (st\<lparr>mult_clash_dict_of := mult,
                             clashes_of :=
                               add_clash (sorted_tuple (it_i_seq item) (it_j_seq item))
                                 \<lparr>c_model_distance = it_model_distance item,
                                  c_vdw_sum = it_vdw_sum item,
                                  c_overlap = \<bar>delta\<bar>,
                                  c_symop_str = it_symop_str item,
                                  c_symop = it_symop item\<rparr> (clashes_of st)\<rparr>)
                else Inr (st\<lparr>mult_clash_dict_of := mult\<rparr>))
         else Inr st)"

definition process_item :: "model \<Rightarrow> bool \<Rightarrow> bool \<Rightarrow> item \<Rightarrow> pstate \<Rightarrow> error + pstate" where
  "process_item m find_clashes find_hbonds item st =
     ebind (if find_hbonds then find_hbonds_step m item st else Inr st) (\<lambda>st1.
       if find_clashes then find_clashes_step m item st1 else Inr st1)"

fun process_items :: "model \<Rightarrow> bool \<Rightarrow> bool \<Rightarrow> item list \<Rightarrow> pstate \<Rightarrow> error + pstate" where
  "process_items m find_clashes find_hbonds [] st = Inr st"
| "process_items m find_clashes find_hbonds (item # rest) st =
     (case process_item m find_clashes find_hbonds item st of
        Inl e \<Rightarrow> Inl e
      | Inr st' \<Rightarrow> process_items m find_clashes find_hbonds rest st')"


subsection \<open>Class \<^verbatim>\<open>manager\<close>: clashes with a common atom\<close>

text \<open>The body of the two inner loops of \<^verbatim>\<open>_process_clashes\<close> for the common atom
  \<^verbatim>\<open>i_seq\<close> and two of its partners: the keys it appends to
  \<^verbatim>\<open>clashes_to_be_removed\<close>. The registry is only read here; it changes after the scan.\<close>

definition inline_verdict ::
  "model \<Rightarrow> clashes_dict \<Rightarrow> nat \<Rightarrow> nat \<Rightarrow> nat \<Rightarrow> error + (nat \<times> nat) list" where
  "inline_verdict m cl i_seq multiple_1 multiple_2 =
     ebind (get_err (m_fsc0 m) multiple_2) (\<lambda>bonded_2.
       if multiple_1 \<in> set bonded_2 then
         ebind (nth_err (m_sites_cart m) multiple_1) (\<lambda>atom_1_xyz.
         ebind (nth_err (m_sites_cart m) multiple_2) (\<lambda>atom_2_xyz.
         ebind (nth_err (m_sites_cart m) i_seq) (\<lambda>atom_i_xyz.
         ebind (iseq_tuple_is_sym_clash cl (sorted_tuple i_seq multiple_1)) (\<lambda>sym1.
           (let tuple1 = sorted_tuple i_seq multiple_1;
                tuple2 = sorted_tuple i_seq multiple_2;
                cos_angle = (if sym1 = None then cos_vec atom_1_xyz atom_2_xyz atom_i_xyz else 0)
            in if \<bar>cos_angle\<bar> > 707 / 1000 \<and> atom_1_xyz \<noteq> atom_2_xyz then
                 if iseq_tuple_is_clashing cl tuple1 \<and> iseq_tuple_is_clashing cl tuple2 then
                   ebind (get_model_distance cl tuple1) (\<lambda>d1.
                   ebind (get_model_distance cl tuple2) (\<lambda>d2.
                     if d1 < d2 then Inr [tuple2] else Inr [tuple1]))
                 else Inr []
               else Inr [])))))
       else Inr [])"

text \<open>Running a loop body over a list and concatenating what each run appends; the first
  exception ends the loop.\<close>

fun collect :: "('a \<Rightarrow> error + 'b list) \<Rightarrow> 'a list \<Rightarrow> error + 'b list" where
  "collect f [] = Inr []"
| "collect f (x # xs) =
     (case f x of
        Inl e \<Rightarrow> Inl e
      | Inr r \<Rightarrow> (case collect f xs of Inl e \<Rightarrow> Inl e | Inr rs \<Rightarrow> Inr (r @ rs)))"

text \<open>\<^verbatim>\<open>for i in range(n_multiples-1): for j in range(i+1, n_multiples)\<close>\<close>

definition index_pairs :: "nat \<Rightarrow> (nat \<times> nat) list" where
  "index_pairs n = concat (map (\<lambda>i. map (\<lambda>j. (i, j)) [i + 1 ..< n]) [0 ..< n - 1])"

definition scan_entry ::
  "model \<Rightarrow> clashes_dict \<Rightarrow> nat \<times> nat list \<Rightarrow> error + (nat \<times> nat) list" where
  "scan_entry m cl entry =
     (case entry of (i_seq, j_seq_list) \<Rightarrow>
        (let n_multiples = length j_seq_list
         in if n_multiples \<le> 1 then Inr []
            else collect (\<lambda>(i, j). inline_verdict m cl i_seq (j_seq_list ! i) (j_seq_list ! j))
                   (index_pairs n_multiples)))"

definition process_clashes :: "model \<Rightarrow> clashes_dict \<Rightarrow> mult_clash_dict \<Rightarrow> error + clashes_dict" where
  "process_clashes m cl mult =
     (case collect (scan_entry m cl) mult of
        Inl e \<Rightarrow> Inl e
      | Inr clashes_to_be_removed \<Rightarrow> Inr (fold remove_clash clashes_to_be_removed cl))"

subsection \<open>Class \<^verbatim>\<open>manager\<close>: the pipeline and the accessors\<close>

text \<open>The attributes \<^verbatim>\<open>_clashes\<close> and \<^verbatim>\<open>_hbonds\<close>; \<open>None\<close> is Python's \<^verbatim>\<open>None\<close>.\<close>

record manager =
  mgr_clashes :: "clashes_dict option"
  mgr_hbonds :: "hbonds_dict option"

definition manager_init :: manager where
  "manager_init = \<lparr>mgr_clashes = None, mgr_hbonds = None\<rparr>"

definition process_nonbonded_proxies ::
  "model \<Rightarrow> bool \<Rightarrow> bool \<Rightarrow> manager \<Rightarrow> error + manager" where
  "process_nonbonded_proxies m find_clashes find_hbonds mgr =
     (case m_sorted m of
        None \<Rightarrow>
          ebind (clashes_init (Some []) None) (\<lambda>cl.
          ebind (hbonds_init (Some []) None) (\<lambda>hb.
            Inr (mgr\<lparr>mgr_clashes := Some cl, mgr_hbonds := Some hb\<rparr>)))
      | Some nonbonded_list \<Rightarrow>
          ebind (clashes_init (Some []) (Some m)) (\<lambda>cl0.
          ebind (process_items m find_clashes find_hbonds nonbonded_list
                   \<lparr>clashes_of = cl0, hbonds_dict_of = [], mult_clash_dict_of = []\<rparr>) (\<lambda>st.
          ebind (process_clashes m (clashes_of st) (mult_clash_dict_of st)) (\<lambda>cl1.
          ebind (sort_clashes ''overlap'' cl1) (\<lambda>cl2.
          ebind (hbonds_init (Some (hbonds_dict_of st)) (Some m)) (\<lambda>hb.
            Inr (mgr\<lparr>mgr_clashes := Some cl2, mgr_hbonds := Some hb\<rparr>)))))))"

text \<open>The accessors return the manager as the call leaves it and the object asked for.
  An \<^verbatim>\<open>hbonds\<close> object defines neither \<^verbatim>\<open>__bool__\<close> nor \<^verbatim>\<open>__len__\<close>, so
  \<^verbatim>\<open>not self._hbonds\<close> holds for \<^verbatim>\<open>None\<close> only.\<close>

definition get_clashes :: "model \<Rightarrow> manager \<Rightarrow> error + manager \<times> clashes_dict option" where
  "get_clashes m mgr =
     (if mgr_clashes mgr = None
      then ebind (process_nonbonded_proxies m True True mgr) (\<lambda>mgr'. Inr (mgr', mgr_clashes mgr'))
      else Inr (mgr, mgr_clashes mgr))"

definition get_hbonds :: "model \<Rightarrow> manager \<Rightarrow> error + manager \<times> hbonds_dict option" where
  "get_hbonds m mgr =
     (if mgr_hbonds mgr = None
      then ebind (process_nonbonded_proxies m True True mgr) (\<lambda>mgr'. Inr (mgr', mgr_hbonds mgr'))
      else Inr (mgr, mgr_hbonds mgr))"

text \<open>\<^verbatim>\<open>hbonds.get_n_bonds() > 0\<close> and \<^verbatim>\<open>clashes.get_n_clashes() > 0\<close>; a method
  called on \<^verbatim>\<open>None\<close> is an \<open>AttributeError\<close>.\<close>

definition has_hbonds :: "model \<Rightarrow> manager \<Rightarrow> error + manager \<times> bool" where
  "has_hbonds m mgr =
     ebind (get_hbonds m mgr) (\<lambda>(mgr', hbonds).
       case hbonds of
         None \<Rightarrow> Inl AttributeError
       | Some h \<Rightarrow> ebind (hbonds_count_method ''get_n_bonds'') (\<lambda>f. Inr (mgr', f h > 0)))"

definition has_clashes :: "model \<Rightarrow> manager \<Rightarrow> error + manager \<times> bool" where
  "has_clashes m mgr =
     ebind (get_clashes m mgr) (\<lambda>(mgr', clashes).
       case clashes of
         None \<Rightarrow> Inl AttributeError
       | Some c \<Rightarrow> Inr (mgr', get_n_clashes c > 0))"


section \<open>Notions the properties are stated with\<close>

subsection \<open>Bond paths\<close>

text \<open>A bond path is a list of atoms in which each atom lists the next one in the
  connectivity table; two atoms are \<open>n\<close> bonds apart when a path of \<open>n\<close> bonds leads from
  the first to the second, and their bond distance is \<open>n\<close> when no shorter path does.\<close>

fun bond_path :: "connectivity \<Rightarrow> nat list \<Rightarrow> bool" where
  "bond_path fct [] = False"
| "bond_path fct [a] = True"
| "bond_path fct (a # b # p) =
     ((case fct a of None \<Rightarrow> False | Some l \<Rightarrow> b \<in> set l) \<and> bond_path fct (b # p))"

definition bonds_apart :: "connectivity \<Rightarrow> nat \<Rightarrow> nat \<Rightarrow> nat \<Rightarrow> bool" where
  "bonds_apart fct a b n = (\<exists>p. length p = Suc n \<and> hd p = a \<and> last p = b \<and> bond_path fct p)"

definition bond_distance_is :: "connectivity \<Rightarrow> nat \<Rightarrow> nat \<Rightarrow> nat \<Rightarrow> bool" where
  "bond_distance_is fct a b n = (bonds_apart fct a b n \<and> (\<forall>m<n. \<not> bonds_apart fct a b m))"

definition bonded_to :: "connectivity \<Rightarrow> nat \<Rightarrow> nat set" where
  "bonded_to fct k = (case fct k of None \<Rightarrow> {} | Some l \<Rightarrow> set l)"


subsection \<open>Clash keys and records\<close>

text \<open>The key and the record the loop stores for a candidate pair, the condition under
  which it stores them, and registries whose keys are distinct and lie in a given set.\<close>

definition clash_key :: "item \<Rightarrow> nat \<times> nat" where
  "clash_key it = sorted_tuple (it_i_seq it) (it_j_seq it)"

definition clash_info_of :: "item \<Rightarrow> clash_info" where
  "clash_info_of it =
     \<lparr>c_model_distance = it_model_distance it, c_vdw_sum = it_vdw_sum it,
      c_overlap = \<bar>it_model_distance it - it_vdw_sum it\<bar>,
      c_symop_str = it_symop_str it, c_symop = it_symop it\<rparr>"

definition clash_condition :: "model \<Rightarrow> item \<Rightarrow> bool" where
  "clash_condition m it =
     (it_model_distance it - it_vdw_sum it < - (40 / 100) \<and>
      check_if_1_5_interaction (it_i_seq it) (it_j_seq it) (m_hd_sel m) (m_fsc0 m) = Inr False)"

definition keys_within :: "(nat \<times> nat) set \<Rightarrow> clashes_dict \<Rightarrow> bool" where
  "keys_within S cl = (distinct (map fst cl) \<and> fst ` set cl \<subseteq> S)"

subsection \<open>Hydrogen-bond geometry\<close>

text \<open>The three thresholds of a hydrogen bond X-H...A, whether the atom \<open>iseq_x\<close> passes
  them as the X of a hydrogen and an acceptor, and the key and the record stored for it.\<close>

definition hbond_thresholds :: "real \<Rightarrow> real \<Rightarrow> real \<Rightarrow> bool" where
  "hbond_thresholds h_a x_a ang =
     (12 / 10 \<le> h_a \<and> h_a \<le> 22 / 10 \<and> 22 / 10 \<le> x_a \<and> x_a \<le> 32 / 10 \<and> 110 \<le> ang)"

definition x_accepts :: "model \<Rightarrow> atom \<Rightarrow> atom \<Rightarrow> nat \<Rightarrow> bool" where
  "x_accepts m atom_h atom_a iseq_x =
     (iseq_x < length (m_atoms m) \<and>
      (case vec_angle (vec_sub (atom_xyz atom_h) (atom_xyz atom_a))
              (vec_sub (atom_xyz atom_h) (atom_xyz (m_atoms m ! iseq_x))) of
         None \<Rightarrow> False
       | Some ang \<Rightarrow>
           hbond_thresholds (vec_length (vec_sub (atom_xyz atom_h) (atom_xyz atom_a)))
             (vec_length (vec_sub (atom_xyz (m_atoms m ! iseq_x)) (atom_xyz atom_a)))
             (degrees ang)))"

definition hbond_record :: "model \<Rightarrow> item \<Rightarrow> atom \<Rightarrow> atom \<Rightarrow> nat \<Rightarrow> hbond_info" where
  "hbond_record m item atom_h atom_a iseq_x =
     \<lparr>hb_h_a_distance = vec_length (vec_sub (atom_xyz atom_h) (atom_xyz atom_a)),
      hb_x_a_distance = vec_length (vec_sub (atom_xyz (m_atoms m ! iseq_x)) (atom_xyz atom_a)),
      hb_x_h_a_angle =
        degrees (case vec_angle (vec_sub (atom_xyz atom_h) (atom_xyz atom_a))
                        (vec_sub (atom_xyz atom_h) (atom_xyz (m_atoms m ! iseq_x))) of
                   None \<Rightarrow> 0 | Some ang \<Rightarrow> ang),
      hb_symop_str = it_symop_str item, hb_symop = it_symop item,
      hb_vdw_sum = it_vdw_sum item\<rparr>"

definition hbond_key :: "model \<Rightarrow> atom \<Rightarrow> atom \<Rightarrow> nat \<Rightarrow> nat \<times> nat \<times> nat" where
  "hbond_key m atom_h atom_a iseq_x =
     (atom_i_seq (m_atoms m ! iseq_x), atom_i_seq atom_h, atom_i_seq atom_a)"

definition record_within_thresholds :: "hbond_info \<Rightarrow> bool" where
  "record_within_thresholds r =
     hbond_thresholds (hb_h_a_distance r) (hb_x_a_distance r) (hb_x_h_a_angle r)"

definition all_within :: "hbonds_dict \<Rightarrow> bool" where
  "all_within hb = (\<forall>(k, r)\<in>set hb. record_within_thresholds r)"

subsection \<open>Inputs for the examples\<close>

text \<open>The chain H-A1-A2-A3-A4 with X bonded to A4 only: atom 0 is the hydrogen, atoms 1
  to 4 are A1 to A4 and atom 5 is X.\<close>

definition chain_fct :: connectivity where
  "chain_fct = map_of [(0, [1]), (1, [0, 2]), (2, [1, 3]), (3, [2, 4]), (4, [3, 5]), (5, [4])]"

definition chain_hd :: "bool list" where
  "chain_hd = [True, False, False, False, False, False]"


text \<open>Two candidate pairs of heavy atoms with a van der Waals sum of 3, in the order of
  their \<open>delta\<close>: the first, met as \<open>(2, 0)\<close>, at distance 2.59 (\<open>delta\<close> is \<open>-0.41\<close>), the
  second at distance 2.6 (\<open>delta\<close> is \<open>-0.40\<close>).\<close>

definition boundary_items :: "item list" where
  "boundary_items =
     [\<lparr>it_i_seq = 2, it_j_seq = 0, it_model_distance = 259 / 100, it_vdw_sum = 3,
       it_symop_str = [], it_symop = None\<rparr>,
      \<lparr>it_i_seq = 0, it_j_seq = 1, it_model_distance = 26 / 10, it_vdw_sum = 3,
       it_symop_str = [], it_symop = None\<rparr>]"

definition boundary_model :: model where
  "boundary_model =
     \<lparr>m_atoms = [], m_hd_sel = [False, False, False], m_water_sel = [False, False, False],
      m_sites_cart = [(0, 0, 0), (26 / 10, 0, 0), (0, 259 / 100, 0)], m_unit_cell = False,
      m_fsc0 = map_of [(0, []), (1, []), (2, [])],
      m_sorted = Some boundary_items, m_rt_mx = (\<lambda>s. None)\<rparr>"

text \<open>An atom that overlaps with its own symmetry copy: the candidate pair \<open>(3, 3)\<close>.\<close>

definition self_items :: "item list" where
  "self_items =
     [\<lparr>it_i_seq = 3, it_j_seq = 3, it_model_distance = 2, it_vdw_sum = 3,
       it_symop_str = ''-x,y,-z'', it_symop = Some ''-x,y,-z''\<rparr>]"

definition self_model :: model where
  "self_model =
     \<lparr>m_atoms = [], m_hd_sel = [False, False, False, False],
      m_water_sel = [False, False, False, False],
      m_sites_cart = [(5, 0, 0), (5, 2, 0), (5, 4, 0), (1, 0, 0)], m_unit_cell = True,
      m_fsc0 = map_of [(0, [1]), (1, [0, 2]), (2, [1]), (3, [])],
      m_sorted = Some self_items, m_rt_mx = (\<lambda>s. None)\<rparr>"

text \<open>A donor group N-H (atoms 0 and 1) on the x axis and two acceptor oxygens of two
  other residues in line with it, atom 2 at 2.0 and atom 3 at 1.9 from the hydrogen; the
  candidate pairs come in the order of their \<open>delta\<close>.\<close>

definition donor_atoms :: "atom list" where
  "donor_atoms =
     [\<lparr>atom_i_seq = 0, atom_xyz = (- 1, 0, 0), atom_element = '' N'', atom_name = '' N  '',
       atom_altloc = [], atom_rg = 0, atom_rg_id_str = ''A   1 ''\<rparr>,
      \<lparr>atom_i_seq = 1, atom_xyz = (0, 0, 0), atom_element = '' H'', atom_name = '' H  '',
       atom_altloc = [], atom_rg = 0, atom_rg_id_str = ''A   1 ''\<rparr>,
      \<lparr>atom_i_seq = 2, atom_xyz = (2, 0, 0), atom_element = '' O'', atom_name = '' O  '',
       atom_altloc = [], atom_rg = 1, atom_rg_id_str = ''A   5 ''\<rparr>,
      \<lparr>atom_i_seq = 3, atom_xyz = (19 / 10, 0, 0), atom_element = '' O'', atom_name = '' O  '',
       atom_altloc = [], atom_rg = 2, atom_rg_id_str = ''A   9 ''\<rparr>]"

definition donor_items :: "item list" where
  "donor_items =
     [\<lparr>it_i_seq = 1, it_j_seq = 3, it_model_distance = 19 / 10, it_vdw_sum = 11 / 5,
       it_symop_str = [], it_symop = None\<rparr>,
      \<lparr>it_i_seq = 1, it_j_seq = 2, it_model_distance = 2, it_vdw_sum = 11 / 5,
       it_symop_str = [], it_symop = None\<rparr>]"

definition donor_model :: model where
  "donor_model =
     \<lparr>m_atoms = donor_atoms, m_hd_sel = [False, True, False, False],
      m_water_sel = [False, False, False, False],
      m_sites_cart = [(- 1, 0, 0), (0, 0, 0), (2, 0, 0), (19 / 10, 0, 0)], m_unit_cell = False,
      m_fsc0 = map_of [(0, [1]), (1, [0]), (2, []), (3, [])],
      m_sorted = Some donor_items, m_rt_mx = (\<lambda>s. None)\<rparr>"

text \<open>Four heavy atoms on the x axis: atom 0 overlaps with atoms 3, 1 and 2 (at 0.5, 1.0
  and 1.5, the order of the candidate pairs), and atom 1 is bonded to atoms 2 and 3.
  \<open>line_registry\<close> is the registry the loop builds from it.\<close>

definition line_items :: "item list" where
  "line_items =
     [\<lparr>it_i_seq = 0, it_j_seq = 3, it_model_distance = 1 / 2, it_vdw_sum = 3,
       it_symop_str = [], it_symop = None\<rparr>,
      \<lparr>it_i_seq = 0, it_j_seq = 1, it_model_distance = 1, it_vdw_sum = 3,
       it_symop_str = [], it_symop = None\<rparr>,
      \<lparr>it_i_seq = 0, it_j_seq = 2, it_model_distance = 3 / 2, it_vdw_sum = 3,
       it_symop_str = [], it_symop = None\<rparr>]"

definition line_model :: model where
  "line_model =
     \<lparr>m_atoms = [], m_hd_sel = [False, False, False, False],
      m_water_sel = [False, False, False, False],
      m_sites_cart = [(0, 0, 0), (1, 0, 0), (3 / 2, 0, 0), (1 / 2, 0, 0)], m_unit_cell = False,
      m_fsc0 = map_of [(0, []), (1, [2, 3]), (2, [1]), (3, [1])],
      m_sorted = Some line_items, m_rt_mx = (\<lambda>s. None)\<rparr>"

definition line_registry :: clashes_dict where
  "line_registry =
     [((0, 3), \<lparr>c_model_distance = 1 / 2, c_vdw_sum = 3, c_overlap = 5 / 2,
                c_symop_str = [], c_symop = None\<rparr>),
      ((0, 1), \<lparr>c_model_distance = 1, c_vdw_sum = 3, c_overlap = 2,
                c_symop_str = [], c_symop = None\<rparr>),
      ((0, 2), \<lparr>c_model_distance = 3 / 2, c_vdw_sum = 3, c_overlap = 3 / 2,
                c_symop_str = [], c_symop = None\<rparr>)]"

text \<open>Atom 0 at the origin overlaps with atom 1 at distance 2.0 and, at distance 2.5, with
  the copy of atom 2 under the symmetry operator \<^verbatim>\<open>x-1,y,z\<close>; atom 2 itself is bonded
  to atom 1 and lies 3.5 from atom 0. \<open>sym_registry\<close> is the registry the loop builds
  from it.\<close>

definition sym_items :: "item list" where
  "sym_items =
     [\<lparr>it_i_seq = 0, it_j_seq = 1, it_model_distance = 2, it_vdw_sum = 3,
       it_symop_str = [], it_symop = None\<rparr>,
      \<lparr>it_i_seq = 0, it_j_seq = 2, it_model_distance = 5 / 2, it_vdw_sum = 3,
       it_symop_str = ''x-1,y,z'', it_symop = Some ''x-1,y,z''\<rparr>]"

definition sym_model :: model where
  "sym_model =
     \<lparr>m_atoms = [], m_hd_sel = [False, False, False],
      m_water_sel = [False, False, False],
      m_sites_cart = [(0, 0, 0), (2, 0, 0), (7 / 2, 0, 0)], m_unit_cell = True,
      m_fsc0 = map_of [(0, []), (1, [2]), (2, [1])],
      m_sorted = Some sym_items, m_rt_mx = (\<lambda>s. None)\<rparr>"

definition sym_registry :: clashes_dict where
  "sym_registry =
     [((0, 1), \<lparr>c_model_distance = 2, c_vdw_sum = 3, c_overlap = 1,
                c_symop_str = [], c_symop = None\<rparr>),
      ((0, 2), \<lparr>c_model_distance = 5 / 2, c_vdw_sum = 3, c_overlap = 1 / 2,
                c_symop_str = ''x-1,y,z'', c_symop = Some ''x-1,y,z''\<rparr>)]"

section \<open>Properties\<close>

subsection \<open>The collinearity score\<close>

lemma vec_sub_swap: "vec_sub v u = vec_div (vec_sub u v) (- 1)"
  by (cases u; cases v) (simp add: vec_sub_def vec_div_def)

lemma vec_length_neg: "vec_length (vec_div a (- 1)) = vec_length a"
  by (cases a) (simp add: vec_length_def vec_div_def vec_dot_def)

lemma vec_dot_neg: "vec_dot a (vec_div (vec_div b (- 1)) c) = - vec_dot a (vec_div b c)"
  by (cases a; cases b) (simp add: vec_div_def vec_dot_def)

lemma vec_add_commute: "vec_add a b = vec_add b a"
  by (cases a; cases b) (simp add: vec_add_def)

text \<open>
  Claim C10: the collinearity score does not depend on the order of its first two
  arguments, the two atoms that clash with the common atom, also when points coincide
  and a vector has length zero.
\<close>

theorem cos_vec_symmetric: "cos_vec u v w = cos_vec v u w"
  unfolding cos_vec_def Let_def vec_normalize_def
  by (simp add: vec_sub_swap[of v u] vec_length_neg vec_dot_neg
      vec_add_commute[of "vec_div u 2"] split: option.splits)

subsection \<open>The 1-5 interaction test\<close>

lemma bond_path_snoc:
  "bond_path fct (p @ [b, c]) \<longleftrightarrow> bond_path fct (p @ [b]) \<and> c \<in> bonded_to fct b"
  by (induction fct p rule: bond_path.induct)
     (auto simp: bonded_to_def split: option.splits)

lemma bonds_apart_0: "bonds_apart fct a b 0 \<longleftrightarrow> b = a"
proof
  assume "bonds_apart fct a b 0"
  then obtain p where "length p = Suc 0" "hd p = a" "last p = b" by (auto simp: bonds_apart_def)
  then show "b = a" by (cases p) auto
next
  assume "b = a"
  then have "length [a] = Suc 0 \<and> hd [a] = a \<and> last [a] = b \<and> bond_path fct [a]" by simp
  then show "bonds_apart fct a b 0" unfolding bonds_apart_def by blast
qed

lemma bonds_apart_Suc:
  "bonds_apart fct a c (Suc n) \<longleftrightarrow> (\<exists>b. bonds_apart fct a b n \<and> c \<in> bonded_to fct b)"
proof
  assume "bonds_apart fct a c (Suc n)"
  then obtain p where p: "length p = Suc (Suc n)" "hd p = a" "last p = c" "bond_path fct p"
    by (auto simp: bonds_apart_def)
  then obtain q b where q: "p = q @ [b, c]"
    by (metis (no_types) append_butlast_last_id append_Cons append_Nil append_assoc
        length_0_conv length_butlast diff_Suc_1 nat.distinct(1) last_snoc butlast_snoc)
  with p have "bond_path fct (q @ [b])" "c \<in> bonded_to fct b"
    by (simp_all add: bond_path_snoc)
  moreover from p q have "length (q @ [b]) = Suc n" "hd (q @ [b]) = a" "last (q @ [b]) = b"
    by (cases q; simp)+
  ultimately show "\<exists>b. bonds_apart fct a b n \<and> c \<in> bonded_to fct b"
    unfolding bonds_apart_def by blast
next
  assume "\<exists>b. bonds_apart fct a b n \<and> c \<in> bonded_to fct b"
  then obtain b p where p: "length p = Suc n" "hd p = a" "last p = b" "bond_path fct p"
    and c: "c \<in> bonded_to fct b"
    by (auto simp: bonds_apart_def)
  from p have "p \<noteq> []" by auto
  then have pb: "p = butlast p @ [b]" using p(3) by (metis append_butlast_last_id)
  then have "bond_path fct (butlast p @ [b, c])"
    using p(4) c by (metis bond_path_snoc)
  moreover have "length (butlast p @ [b, c]) = Suc (Suc n)" using p(1) by simp
  moreover have "hd (butlast p @ [b, c]) = a" using p(2) pb by (cases "butlast p"; metis append_Cons append_Nil list.sel(1))
  moreover have "last (butlast p @ [b, c]) = c" by simp
  ultimately show "bonds_apart fct a c (Suc n)" unfolding bonds_apart_def by blast
qed


lemma bonded_to_entries:
  assumes "fct a \<noteq> None" and "\<forall>k l. fct k = Some l \<longrightarrow> (\<forall>x\<in>set l. fct x \<noteq> None)"
    and "bonds_apart fct a b n"
  shows "fct b \<noteq> None"
  using assms(3)
proof (induction n arbitrary: b)
  case 0
  then show ?case using assms(1) by (simp add: bonds_apart_0)
next
  case (Suc n)
  then obtain k where "bonds_apart fct a k n" "b \<in> bonded_to fct k"
    by (auto simp: bonds_apart_Suc)
  then show ?case using assms(2) by (auto simp: bonded_to_def split: option.splits)
qed

lemma connections_of_Inr:
  assumes "\<forall>k\<in>new. fct k \<noteq> None"
  shows "connections_of fct new = Inr (\<Union>k\<in>new. bonded_to fct k)"
  using assms by (auto simp: connections_of_def bonded_to_def)

lemma expand_step_layer:
  assumes new: "new = {b. bond_distance_is fct a b n}"
    and used: "used = {b. \<exists>m\<le>n. bonds_apart fct a b m}"
    and ent: "\<forall>k\<in>new. fct k \<noteq> None"
  shows "expand_step fct i (new, used, an) =
     Inr ({b. bond_distance_is fct a b (Suc n)}, {b. \<exists>m\<le>Suc n. bonds_apart fct a b m},
          (\<lambda>x. if bond_distance_is fct a x (Suc n) then Some i else an x))"
proof -
  let ?C = "\<Union>k\<in>new. bonded_to fct k"
  have layer: "?C - used = {b. bond_distance_is fct a b (Suc n)}"
  proof (intro set_eqI iffI)
    fix c assume "c \<in> ?C - used"
    then obtain k where k: "k \<in> new" "c \<in> bonded_to fct k" and c: "c \<notin> used" by auto
    from k new have "bonds_apart fct a c (Suc n)"
      by (auto simp: bonds_apart_Suc bond_distance_is_def)
    moreover from c used have "\<forall>m<Suc n. \<not> bonds_apart fct a c m" by (auto simp: less_Suc_eq_le)
    ultimately show "c \<in> {b. bond_distance_is fct a b (Suc n)}"
      by (simp add: bond_distance_is_def)
  next
    fix c assume "c \<in> {b. bond_distance_is fct a b (Suc n)}"
    then have c: "bonds_apart fct a c (Suc n)" "\<forall>m<Suc n. \<not> bonds_apart fct a c m"
      by (simp_all add: bond_distance_is_def)
    from c(1) obtain b where b: "bonds_apart fct a b n" "c \<in> bonded_to fct b"
      by (auto simp: bonds_apart_Suc)
    have "\<not> bonds_apart fct a b m" if "m < n" for m
    proof
      assume "bonds_apart fct a b m"
      with b(2) have "bonds_apart fct a c (Suc m)" by (auto simp: bonds_apart_Suc)
      with c(2) that show False by auto
    qed
    with b(1) new have "b \<in> new" by (simp add: bond_distance_is_def)
    moreover from c(2) used have "c \<notin> used" by (auto simp: less_Suc_eq_le)
    ultimately show "c \<in> ?C - used" using b(2) by auto
  qed
  have within: "used \<union> ?C = {b. \<exists>m\<le>Suc n. bonds_apart fct a b m}"
  proof (intro set_eqI iffI)
    fix c assume "c \<in> used \<union> ?C"
    then show "c \<in> {b. \<exists>m\<le>Suc n. bonds_apart fct a b m}"
    proof
      assume "c \<in> used"
      with used show ?thesis by (auto intro: le_SucI)
    next
      assume "c \<in> ?C"
      then obtain k where "k \<in> new" "c \<in> bonded_to fct k" by auto
      with new have "bonds_apart fct a c (Suc n)"
        by (auto simp: bonds_apart_Suc bond_distance_is_def)
      then show ?thesis by auto
    qed
  next
    fix c assume "c \<in> {b. \<exists>m\<le>Suc n. bonds_apart fct a b m}"
    then obtain m where m: "m \<le> Suc n" "bonds_apart fct a c m" by auto
    show "c \<in> used \<union> ?C"
    proof (cases "c \<in> used")
      case True then show ?thesis by simp
    next
      case False
      with used have no: "\<forall>m\<le>n. \<not> bonds_apart fct a c m" by auto
      with m have "m = Suc n" by (metis le_SucE)
      with m no have "bond_distance_is fct a c (Suc n)"
        by (auto simp: bond_distance_is_def less_Suc_eq_le)
      with layer show ?thesis by auto
    qed
  qed
  have "expand_step fct i (new, used, an) =
      Inr (?C - used, used \<union> ?C, (\<lambda>x. if x \<in> ?C - used then Some i else an x))"
    unfolding expand_step_def
    by (simp only: prod.case connections_of_Inr[OF ent] sum.case)
  then show ?thesis unfolding layer within by simp
qed

lemma expand_loop_layers:
  assumes a: "fct a \<noteq> None"
    and closed: "\<forall>k l. fct k = Some l \<longrightarrow> (\<forall>x\<in>set l. fct x \<noteq> None)"
  shows "\<exists>new used an. expand_loop fct [2, 3, 4, 5] ({a}, {a}, [a \<mapsto> 0]) = Inr (new, used, an)
           \<and> (\<forall>x. an x = Some 5 \<longleftrightarrow> bond_distance_is fct a x 4)"
proof -
  have ent: "\<forall>k\<in>{b. bond_distance_is fct a b n}. fct k \<noteq> None" for n
    using bonded_to_entries[OF a closed] by (auto simp: bond_distance_is_def)
  have new0: "{a} = {b. bond_distance_is fct a b 0}"
    by (auto simp: bond_distance_is_def bonds_apart_0)
  have used0: "{a} = {b. \<exists>m\<le>0. bonds_apart fct a b m}"
    by (auto simp: bonds_apart_0)
  have ent0: "\<forall>k\<in>{a}. fct k \<noteq> None" using a by simp
  note s1 = expand_step_layer[OF new0 used0 ent0]
  note s2 = expand_step_layer[OF refl refl ent]
  show ?thesis
    by (simp add: s1 s2 numeral_2_eq_2 numeral_3_eq_3 eval_nat_numeral)
qed



text \<open>
  Claim C3, as amended: when the table has an entry for both atoms and for every atom it
  lists, the test returns true exactly when one of the two atoms is a hydrogen and the
  bond distance from the hydrogen to the other atom is 4 (the fifth atom of the chain,
  counting the hydrogen as the first). On the chain H-A1-A2-A3-A4-X it is true for A4 and
  false for X and for A3.
\<close>

theorem check_if_1_5_interaction_four_bonds:
  assumes i: "i_seq < length hd_sel" and j: "j_seq < length hd_sel"
    and ei: "fct i_seq \<noteq> None" and ej: "fct j_seq \<noteq> None"
    and closed: "\<forall>k l. fct k = Some l \<longrightarrow> (\<forall>x\<in>set l. fct x \<noteq> None)"
  shows "check_if_1_5_interaction i_seq j_seq hd_sel fct =
     Inr (xor_py (hd_sel ! i_seq) (hd_sel ! j_seq) \<and>
          (if hd_sel ! i_seq then bond_distance_is fct i_seq j_seq 4
           else bond_distance_is fct j_seq i_seq 4))"
proof (cases "xor_py (hd_sel ! i_seq) (hd_sel ! j_seq)")
  case False
  then show ?thesis using i j by (simp add: check_if_1_5_interaction_def nth_err_def)
next
  case True
  show ?thesis
  proof (cases "hd_sel ! i_seq")
    case h: True
    from expand_loop_layers[OF ei closed] obtain new used an where
      "expand_loop fct [2, 3, 4, 5] ({i_seq}, {i_seq}, [i_seq \<mapsto> 0]) = Inr (new, used, an)"
      "\<forall>x. an x = Some 5 \<longleftrightarrow> bond_distance_is fct i_seq x 4" by blast
    then show ?thesis using i j True h
      by (simp add: check_if_1_5_interaction_def nth_err_def)
  next
    case h: False
    from expand_loop_layers[OF ej closed] obtain new used an where
      "expand_loop fct [2, 3, 4, 5] ({j_seq}, {j_seq}, [j_seq \<mapsto> 0]) = Inr (new, used, an)"
      "\<forall>x. an x = Some 5 \<longleftrightarrow> bond_distance_is fct j_seq x 4" by blast
    then show ?thesis using i j True h
      by (simp add: check_if_1_5_interaction_def nth_err_def)
  qed
qed

lemma chain_fct_closed: "\<forall>k l. chain_fct k = Some l \<longrightarrow> (\<forall>x\<in>set l. chain_fct x \<noteq> None)"
  by (auto simp: chain_fct_def split: if_splits)


text \<open>On the chain, the test is false for the hydrogen and X, which are five bonds apart.\<close>

theorem check_if_1_5_interaction_chain_counterexample:
  "check_if_1_5_interaction 0 5 chain_hd chain_fct = Inr False"
  by code_simp

theorem check_if_1_5_interaction_four_bonds_witness:
  "check_if_1_5_interaction 0 4 chain_hd chain_fct = Inr True
   \<and> check_if_1_5_interaction 0 5 chain_hd chain_fct = Inr False
   \<and> check_if_1_5_interaction 0 3 chain_hd chain_fct = Inr False
   \<and> bond_distance_is chain_fct 0 4 4
   \<and> \<not> bond_distance_is chain_fct 0 5 4
   \<and> \<not> bond_distance_is chain_fct 0 3 4"
proof -
  have len: "0 < length chain_hd" "3 < length chain_hd" "4 < length chain_hd" "5 < length chain_hd"
    by (simp_all add: chain_hd_def)
  have ent: "chain_fct 0 \<noteq> None" "chain_fct 3 \<noteq> None" "chain_fct 4 \<noteq> None" "chain_fct 5 \<noteq> None"
    by (simp_all add: chain_fct_def)
  have e4: "check_if_1_5_interaction 0 4 chain_hd chain_fct = Inr True" by code_simp
  have e5: "check_if_1_5_interaction 0 5 chain_hd chain_fct = Inr False" by code_simp
  have e3: "check_if_1_5_interaction 0 3 chain_hd chain_fct = Inr False" by code_simp
  have x: "xor_py (chain_hd ! 0) (chain_hd ! 4)" "xor_py (chain_hd ! 0) (chain_hd ! 5)"
    "xor_py (chain_hd ! 0) (chain_hd ! 3)" "chain_hd ! 0"
    by (simp_all add: chain_hd_def xor_py_def)
  from check_if_1_5_interaction_four_bonds[OF len(1) len(3) ent(1) ent(3) chain_fct_closed] e4 x
  have d4: "bond_distance_is chain_fct 0 4 4" by simp
  from check_if_1_5_interaction_four_bonds[OF len(1) len(4) ent(1) ent(4) chain_fct_closed] e5 x
  have d5: "\<not> bond_distance_is chain_fct 0 5 4" by simp
  from check_if_1_5_interaction_four_bonds[OF len(1) len(2) ent(1) ent(2) chain_fct_closed] e3 x
  have d3: "\<not> bond_distance_is chain_fct 0 3 4" by simp
  from e4 e5 e3 d4 d5 d3 show ?thesis by blast
qed


subsection \<open>Evaluating the pipeline on the example inputs\<close>

lemmas pipeline_defs =
  process_item_def find_hbonds_step_def find_clashes_step_def is_clash_def
  check_if_1_5_interaction_def nth_err_def get_err_def ebind_def xor_py_def
  mult_ensure_def mult_append_def sorted_tuple_def add_clash_def Let_def

lemma index_pairs_2: "index_pairs (Suc (Suc 0)) = [(0, Suc 0)]"
  by (simp add: index_pairs_def)

lemma index_pairs_3:
  "index_pairs (Suc (Suc (Suc 0))) = [(0, Suc 0), (0, Suc (Suc 0)), (Suc 0, Suc (Suc 0))]"
  by (simp add: index_pairs_def upt_rec)

lemmas resolver_defs =
  process_clashes_def scan_entry_def inline_verdict_def remove_clash_def
  iseq_tuple_is_clashing_def iseq_tuple_is_sym_clash_def get_model_distance_def
  nth_err_def get_err_def ebind_def sorted_tuple_def Let_def

lemmas registry_defs =
  sort_clashes_def clashes_init_def hbonds_init_def ebind_def


lemma boundary_loop:
  "process_items boundary_model True True boundary_items
      \<lparr>clashes_of = [], hbonds_dict_of = [], mult_clash_dict_of = []\<rparr> =
     Inr \<lparr>clashes_of = [((0, 2), \<lparr>c_model_distance = 259 / 100, c_vdw_sum = 3,
                                  c_overlap = 41 / 100, c_symop_str = [], c_symop = None\<rparr>)],
          hbonds_dict_of = [],
          mult_clash_dict_of = [(2, [0]), (0, [2])]\<rparr>"
  by (simp add: boundary_model_def boundary_items_def pipeline_defs)

lemma boundary_resolve:
  "process_clashes boundary_model
     [((0, 2), \<lparr>c_model_distance = 259 / 100, c_vdw_sum = 3,
                 c_overlap = 41 / 100, c_symop_str = [], c_symop = None\<rparr>)]
     [(2, [0]), (0, [2])] =
   Inr [((0, 2), \<lparr>c_model_distance = 259 / 100, c_vdw_sum = 3,
                 c_overlap = 41 / 100, c_symop_str = [], c_symop = None\<rparr>)]"
  by (simp add: boundary_model_def resolver_defs)

lemma boundary_run:
  "process_nonbonded_proxies boundary_model True True manager_init =
     Inr \<lparr>mgr_clashes = Some [((0, 2), \<lparr>c_model_distance = 259 / 100, c_vdw_sum = 3,
                                  c_overlap = 41 / 100, c_symop_str = [], c_symop = None\<rparr>)],
          mgr_hbonds = Some []\<rparr>"
proof -
  have s: "m_sorted boundary_model = Some boundary_items" by (simp add: boundary_model_def)
  show ?thesis
    unfolding process_nonbonded_proxies_def s
    by (simp add: registry_defs boundary_loop boundary_resolve manager_init_def)
qed

lemma self_loop:
  "process_items self_model True True self_items
      \<lparr>clashes_of = [], hbonds_dict_of = [], mult_clash_dict_of = []\<rparr> =
     Inr \<lparr>clashes_of = [((3, 3), \<lparr>c_model_distance = 2, c_vdw_sum = 3,
               c_overlap = 1, c_symop_str = ''-x,y,-z'', c_symop = Some ''-x,y,-z''\<rparr>)],
          hbonds_dict_of = [], mult_clash_dict_of = [(3, [3, 3])]\<rparr>"
  by (simp add: self_model_def self_items_def pipeline_defs)

lemma self_resolve:
  "process_clashes self_model
     [((3, 3), \<lparr>c_model_distance = 2, c_vdw_sum = 3,
               c_overlap = 1, c_symop_str = ''-x,y,-z'', c_symop = Some ''-x,y,-z''\<rparr>)]
     [(3, [3, 3])] =
   Inr [((3, 3), \<lparr>c_model_distance = 2, c_vdw_sum = 3,
               c_overlap = 1, c_symop_str = ''-x,y,-z'', c_symop = Some ''-x,y,-z''\<rparr>)]"
  by (simp add: self_model_def resolver_defs index_pairs_2)

lemma self_run:
  "process_nonbonded_proxies self_model True True manager_init =
     Inr \<lparr>mgr_clashes = Some [((3, 3), \<lparr>c_model_distance = 2, c_vdw_sum = 3,
               c_overlap = 1, c_symop_str = ''-x,y,-z'', c_symop = Some ''-x,y,-z''\<rparr>)],
          mgr_hbonds = Some []\<rparr>"
proof -
  have s: "m_sorted self_model = Some self_items" by (simp add: self_model_def)
  show ?thesis
    unfolding process_nonbonded_proxies_def s
    by (simp add: registry_defs self_loop self_resolve manager_init_def)
qed



subsection \<open>The accessors\<close>

text \<open>
  Claim C5: when \<^verbatim>\<open>get_sorted\<close> returns \<^verbatim>\<open>None\<close>, the pipeline does not return:
  the call \<^verbatim>\<open>clashes(clashes_dict = dict())\<close> lacks the argument \<^verbatim>\<open>model\<close> and
  raises \<open>TypeError\<close>, so neither registry is created, through either accessor.
\<close>

theorem empty_input_raises:
  "process_nonbonded_proxies (m\<lparr>m_sorted := None\<rparr>) find_clashes find_hbonds mgr = Inl TypeError
   \<and> get_clashes (m\<lparr>m_sorted := None\<rparr>) manager_init = Inl TypeError
   \<and> get_hbonds (m\<lparr>m_sorted := None\<rparr>) manager_init = Inl TypeError"
  by (simp add: process_nonbonded_proxies_def clashes_init_def ebind_def get_clashes_def
      get_hbonds_def manager_init_def)

text \<open>
  Claim C9: \<^verbatim>\<open>has_hbonds\<close> never returns a value, because it calls
  \<^verbatim>\<open>get_n_bonds\<close>, which the class \<^verbatim>\<open>hbonds\<close> does not define; once the registry
  exists the call raises \<open>AttributeError\<close>. \<^verbatim>\<open>has_clashes\<close> returns whether the
  count of the clash registry is positive.
\<close>

theorem has_hbonds_raises:
  "(\<forall>r. has_hbonds m mgr \<noteq> Inr r)
   \<and> has_hbonds m (mgr\<lparr>mgr_hbonds := Some h\<rparr>) = Inl AttributeError
   \<and> has_clashes m (mgr\<lparr>mgr_clashes := Some c\<rparr>)
       = Inr (mgr\<lparr>mgr_clashes := Some c\<rparr>, length c > 0)"
  by (auto simp: has_hbonds_def has_clashes_def get_hbonds_def get_clashes_def ebind_def
      hbonds_count_method_def get_n_clashes_def split: sum.splits option.splits)


subsection \<open>The clash threshold\<close>

lemma find_hbonds_step_clashes:
  "find_hbonds_step m item st = Inr st' \<Longrightarrow>
     clashes_of st' = clashes_of st \<and> mult_clash_dict_of st' = mult_clash_dict_of st"
  by (auto simp: find_hbonds_step_def ebind_def split: if_splits sum.splits prod.splits)

lemma find_clashes_step_hbonds:
  "find_clashes_step m item st = Inr st' \<Longrightarrow> hbonds_dict_of st' = hbonds_dict_of st"
  by (auto simp: find_clashes_step_def ebind_def Let_def split: if_splits sum.splits prod.splits)

lemma find_clashes_step_clashes:
  assumes "find_clashes_step m item st = Inr st'"
  shows "clashes_of st' =
     (if clash_condition m item then add_clash (clash_key item) (clash_info_of item) (clashes_of st)
      else clashes_of st)"
  using assms
  by (auto simp: find_clashes_step_def ebind_def Let_def is_clash_def clash_key_def
      clash_info_of_def clash_condition_def
      split: if_splits sum.splits prod.splits)

lemma find_clashes_step_keys:
  assumes "find_clashes_step m item st = Inr st'"
  shows "fst ` set (clashes_of st') = fst ` set (clashes_of st) \<union>
     (if clash_condition m item then {clash_key item} else {})"
  by (simp add: find_clashes_step_clashes[OF assms] add_clash_def dom_update)

lemma process_item_keys:
  assumes "process_item m True find_hbonds item st = Inr st'"
  shows "fst ` set (clashes_of st') = fst ` set (clashes_of st) \<union>
     (if clash_condition m item then {clash_key item} else {})"
proof -
  from assms obtain st1 where
    s1: "(if find_hbonds then find_hbonds_step m item st else Inr st) = Inr st1"
    and s2: "find_clashes_step m item st1 = Inr st'"
    by (auto simp: process_item_def ebind_def split: sum.splits)
  from s1 have "clashes_of st1 = clashes_of st"
    by (auto dest: find_hbonds_step_clashes split: if_splits)
  with find_clashes_step_keys[OF s2] show ?thesis by simp
qed

lemma process_items_keys:
  assumes "process_items m True find_hbonds items st = Inr st'"
  shows "fst ` set (clashes_of st') =
     fst ` set (clashes_of st) \<union> {clash_key it | it. it \<in> set items \<and> clash_condition m it}"
  using assms
proof (induction items arbitrary: st)
  case Nil
  then show ?case by simp
next
  case (Cons item rest)
  then obtain st1 where s1: "process_item m True find_hbonds item st = Inr st1"
    and s2: "process_items m True find_hbonds rest st1 = Inr st'"
    by (auto split: sum.splits)
  from Cons.IH[OF s2] process_item_keys[OF s1] show ?case by auto
qed


lemma set_update_subset: "set (AList.update k v al) \<subseteq> insert (k, v) (set al)"
  by (induction al) auto

lemma process_item_records:
  assumes "process_item m True find_hbonds item st = Inr st'"
    and "\<forall>(k, r)\<in>set (clashes_of st). c_model_distance r - c_vdw_sum r < - (40 / 100)"
  shows "\<forall>(k, r)\<in>set (clashes_of st'). c_model_distance r - c_vdw_sum r < - (40 / 100)"
proof -
  from assms(1) obtain st1 where
    s1: "(if find_hbonds then find_hbonds_step m item st else Inr st) = Inr st1"
    and s2: "find_clashes_step m item st1 = Inr st'"
    by (auto simp: process_item_def ebind_def split: sum.splits)
  from s1 have c1: "clashes_of st1 = clashes_of st"
    by (auto dest: find_hbonds_step_clashes split: if_splits)
  show ?thesis
  proof (cases "clash_condition m item")
    case True
    then have "c_model_distance (clash_info_of item) - c_vdw_sum (clash_info_of item)
        < - (40 / 100)"
      by (simp add: clash_condition_def clash_info_of_def)
    with assms(2) set_update_subset[of "clash_key item" "clash_info_of item" "clashes_of st"]
    show ?thesis
      unfolding find_clashes_step_clashes[OF s2] c1 add_clash_def using True by auto
  next
    case False
    with assms(2) show ?thesis unfolding find_clashes_step_clashes[OF s2] c1 by simp
  qed
qed

lemma process_items_records:
  assumes "process_items m True find_hbonds items st = Inr st'"
    and "\<forall>(k, r)\<in>set (clashes_of st). c_model_distance r - c_vdw_sum r < - (40 / 100)"
  shows "\<forall>(k, r)\<in>set (clashes_of st'). c_model_distance r - c_vdw_sum r < - (40 / 100)"
  using assms
proof (induction items arbitrary: st)
  case Nil
  then show ?case by simp
next
  case (Cons item rest)
  then obtain st1 where s1: "process_item m True find_hbonds item st = Inr st1"
    and s2: "process_items m True find_hbonds rest st1 = Inr st'"
    by (auto split: sum.splits)
  from Cons.IH[OF s2 process_item_records[OF s1 Cons.prems(2)]] show ?case .
qed

text \<open>
  Claim C1: after the loop over the candidate pairs, started on an empty registry, the
  keys of the registry are the sorted pairs of exactly those candidates whose
  \<open>delta = model_distance - vdw_sum\<close> is below \<open>-0.40\<close> and for which the 1-5 test returns
  false, and every record stored has a \<open>delta\<close> below \<open>-0.40\<close>.
\<close>

theorem clash_record_iff:
  assumes "process_items m True find_hbonds items
             \<lparr>clashes_of = [], hbonds_dict_of = [], mult_clash_dict_of = []\<rparr> = Inr st"
  shows "fst ` set (clashes_of st) =
           {sorted_tuple (it_i_seq it) (it_j_seq it) | it.
              it \<in> set items \<and> it_model_distance it - it_vdw_sum it < - (40 / 100) \<and>
              check_if_1_5_interaction (it_i_seq it) (it_j_seq it) (m_hd_sel m) (m_fsc0 m)
                = Inr False}
         \<and> (\<forall>(k, r)\<in>set (clashes_of st). c_model_distance r - c_vdw_sum r < - (40 / 100))"
  using process_items_keys[OF assms] process_items_records[OF assms]
  by (simp add: clash_key_def clash_condition_def)

text \<open>The pair at \<open>delta = -0.40\<close> leaves no record, the pair at \<open>delta = -0.41\<close> does.\<close>

theorem clash_record_iff_witness:
  "process_items boundary_model True True boundary_items
      \<lparr>clashes_of = [], hbonds_dict_of = [], mult_clash_dict_of = []\<rparr> =
     Inr \<lparr>clashes_of = [((0, 2), \<lparr>c_model_distance = 259 / 100, c_vdw_sum = 3,
                                  c_overlap = 41 / 100, c_symop_str = [], c_symop = None\<rparr>)],
          hbonds_dict_of = [],
          mult_clash_dict_of = [(2, [0]), (0, [2])]\<rparr>
   \<and> {sorted_tuple (it_i_seq it) (it_j_seq it) | it.
        it \<in> set boundary_items \<and> it_model_distance it - it_vdw_sum it < - (40 / 100) \<and>
        check_if_1_5_interaction (it_i_seq it) (it_j_seq it)
          (m_hd_sel boundary_model) (m_fsc0 boundary_model) = Inr False} = {(0, 2)}"
  using clash_record_iff[OF boundary_loop] boundary_loop by simp

subsection \<open>The keys of the clash registry\<close>

lemma sorted_tuple_le: "fst (sorted_tuple a b) \<le> snd (sorted_tuple a b)"
  by (simp add: sorted_tuple_def)

lemma sorted_tuple_commute: "sorted_tuple a b = sorted_tuple b a"
  by (simp add: sorted_tuple_def)

lemma find_clashes_step_within:
  assumes "find_clashes_step m item st = Inr st'" and "keys_within S (clashes_of st)"
    and "clash_key item \<in> S"
  shows "keys_within S (clashes_of st')"
  using assms(2,3) unfolding keys_within_def find_clashes_step_clashes[OF assms(1)]
  by (auto simp: add_clash_def dom_update distinct_update)

lemma process_item_within:
  assumes "process_item m find_clashes find_hbonds item st = Inr st'"
    and "keys_within S (clashes_of st)" and "clash_key item \<in> S"
  shows "keys_within S (clashes_of st')"
proof -
  from assms(1) obtain st1 where
    s1: "(if find_hbonds then find_hbonds_step m item st else Inr st) = Inr st1"
    and s2: "(if find_clashes then find_clashes_step m item st1 else Inr st1) = Inr st'"
    by (auto simp: process_item_def ebind_def split: sum.splits)
  from s1 have c1: "clashes_of st1 = clashes_of st"
    by (auto dest: find_hbonds_step_clashes split: if_splits)
  show ?thesis
  proof (cases find_clashes)
    case True
    with s2 have "find_clashes_step m item st1 = Inr st'" by simp
    from find_clashes_step_within[OF this] assms(2,3) c1 show ?thesis by simp
  next
    case False
    with s2 c1 assms(2) show ?thesis by simp
  qed
qed

lemma process_items_within:
  assumes "process_items m find_clashes find_hbonds items st = Inr st'"
    and "keys_within S (clashes_of st)" and "clash_key ` set items \<subseteq> S"
  shows "keys_within S (clashes_of st')"
  using assms
proof (induction items arbitrary: st)
  case Nil
  then show ?case by simp
next
  case (Cons item rest)
  then obtain st1 where s1: "process_item m find_clashes find_hbonds item st = Inr st1"
    and s2: "process_items m find_clashes find_hbonds rest st1 = Inr st'"
    by (auto split: sum.splits)
  from process_item_within[OF s1 Cons.prems(2)] Cons.prems(3)
  have "keys_within S (clashes_of st1)" by simp
  from Cons.IH[OF s2 this] Cons.prems(3) show ?case by simp
qed

lemma remove_clash_within: "keys_within S cl \<Longrightarrow> keys_within S (remove_clash k cl)"
  using dom_delete_subset[of k cl]
  by (auto simp: keys_within_def remove_clash_def distinct_delete)

lemma fold_remove_clash_within:
  "keys_within S cl \<Longrightarrow> keys_within S (fold remove_clash ks cl)"
  by (induction ks arbitrary: cl) (simp_all add: remove_clash_within)

lemma process_clashes_within:
  "process_clashes m cl mult = Inr cl' \<Longrightarrow> keys_within S cl \<Longrightarrow> keys_within S cl'"
  by (auto simp: process_clashes_def fold_remove_clash_within split: sum.splits)

lemma sort_key_within: "keys_within S cl \<Longrightarrow> keys_within S (sort_key f cl)"
  by (simp add: keys_within_def distinct_map)

lemma sort_clashes_within:
  "sort_clashes by_value cl = Inr cl' \<Longrightarrow> keys_within S cl \<Longrightarrow> keys_within S cl'"
  by (auto simp: sort_clashes_def sort_key_within split: if_splits)

lemma pipeline_clashes_within:
  assumes "process_nonbonded_proxies m find_clashes find_hbonds mgr = Inr mgr'"
  shows "\<exists>cl items. mgr_clashes mgr' = Some cl \<and> m_sorted m = Some items \<and>
           keys_within (clash_key ` set items) cl"
proof (cases "m_sorted m")
  case None
  with assms show ?thesis
    by (simp add: process_nonbonded_proxies_def clashes_init_def ebind_def)
next
  case (Some items)
  with assms obtain cl0 st cl1 cl2 where
    c0: "clashes_init (Some []) (Some m) = Inr cl0"
    and lp: "process_items m find_clashes find_hbonds items
               \<lparr>clashes_of = cl0, hbonds_dict_of = [], mult_clash_dict_of = []\<rparr> = Inr st"
    and pc: "process_clashes m (clashes_of st) (mult_clash_dict_of st) = Inr cl1"
    and so: "sort_clashes ''overlap'' cl1 = Inr cl2"
    and res: "mgr_clashes mgr' = Some cl2"
    by (auto simp: process_nonbonded_proxies_def ebind_def split: sum.splits)
  let ?S = "clash_key ` set items"
  from c0 have "cl0 = []" by (simp add: clashes_init_def sort_clashes_def)
  then have "keys_within ?S cl0" by (simp add: keys_within_def)
  with process_items_within[OF lp] have "keys_within ?S (clashes_of st)" by simp
  with process_clashes_within[OF pc] have "keys_within ?S cl1" by simp
  with sort_clashes_within[OF so] have "keys_within ?S cl2" by simp
  with res Some show ?thesis by simp
qed

text \<open>
  Claim C8, as amended: in the registry the pipeline returns, no key appears twice, the
  first component of every key is at most the second, and every key is the sorted pair of
  a candidate's two atoms, whichever of the two came first; the pairs \<open>(5, 2)\<close> and
  \<open>(2, 5)\<close> both give the key \<open>(2, 5)\<close>.
\<close>

theorem clash_keys_canonical:
  assumes "process_nonbonded_proxies m find_clashes find_hbonds mgr = Inr mgr'"
  shows "\<exists>cl items. mgr_clashes mgr' = Some cl \<and> m_sorted m = Some items \<and>
           distinct (map fst cl) \<and>
           (\<forall>k\<in>fst ` set cl. fst k \<le> snd k \<and>
              (\<exists>it\<in>set items. k = sorted_tuple (it_i_seq it) (it_j_seq it) \<and>
                               k = sorted_tuple (it_j_seq it) (it_i_seq it))) \<and>
           sorted_tuple 5 2 = (2, 5) \<and> sorted_tuple 2 5 = (2, 5)"
proof -
  from pipeline_clashes_within[OF assms] obtain cl items where
    r: "mgr_clashes mgr' = Some cl" "m_sorted m = Some items"
    and k: "keys_within (clash_key ` set items) cl" by blast
  have "fst k \<le> snd k \<and>
      (\<exists>it\<in>set items. k = sorted_tuple (it_i_seq it) (it_j_seq it) \<and>
                       k = sorted_tuple (it_j_seq it) (it_i_seq it))"
    if "k \<in> fst ` set cl" for k
  proof -
    from that k obtain it where it: "it \<in> set items" "k = clash_key it"
      by (auto simp: keys_within_def)
    then show ?thesis
      using sorted_tuple_le sorted_tuple_commute by (auto simp: clash_key_def)
  qed
  moreover from k have "distinct (map fst cl)" by (simp add: keys_within_def)
  moreover have "sorted_tuple 5 2 = (2, 5)" "sorted_tuple 2 5 = (2, 5)"
    by (simp_all add: sorted_tuple_def)
  ultimately show ?thesis using r by blast
qed

theorem clash_keys_canonical_witness:
  "process_nonbonded_proxies boundary_model True True manager_init =
     Inr \<lparr>mgr_clashes = Some [((0, 2), \<lparr>c_model_distance = 259 / 100, c_vdw_sum = 3,
                                  c_overlap = 41 / 100, c_symop_str = [], c_symop = None\<rparr>)],
          mgr_hbonds = Some []\<rparr>
   \<and> (\<exists>cl items.
         mgr_clashes \<lparr>mgr_clashes = Some [((0, 2), \<lparr>c_model_distance = 259 / 100, c_vdw_sum = 3,
                                  c_overlap = 41 / 100, c_symop_str = [], c_symop = None\<rparr>)],
                      mgr_hbonds = Some []\<rparr> = Some cl \<and>
         m_sorted boundary_model = Some items \<and> distinct (map fst cl) \<and>
         (\<forall>k\<in>fst ` set cl. fst k \<le> snd k \<and>
            (\<exists>it\<in>set items. k = sorted_tuple (it_i_seq it) (it_j_seq it) \<and>
                             k = sorted_tuple (it_j_seq it) (it_i_seq it))) \<and>
         sorted_tuple 5 2 = (2, 5) \<and> sorted_tuple 2 5 = (2, 5))"
  using clash_keys_canonical[OF boundary_run] boundary_run by blast

text \<open>The pair \<open>(3, 3)\<close> is stored under the key \<open>(3, 3)\<close>, whose first component is not
  less than its second.\<close>

theorem clash_keys_self_pair_counterexample:
  "\<exists>mgr' cl k. process_nonbonded_proxies self_model True True manager_init = Inr mgr' \<and>
      mgr_clashes mgr' = Some cl \<and> k \<in> fst ` set cl \<and> \<not> fst k < snd k"
proof -
  have "(3, 3) \<in> fst ` set [((3::nat, 3::nat), x)]" for x :: clash_info by simp
  with self_run show ?thesis by force
qed



subsection \<open>The hydrogen-bond test\<close>

lemma hbond_search_Cons:
  assumes "hbond_search m item atom_h atom_a (x # rest) hb = Inr (found, hb')"
  shows "if x_accepts m atom_h atom_a x
         then found \<and> hb' = AList.update (hbond_key m atom_h atom_a x)
                               (hbond_record m item atom_h atom_a x) hb
         else hbond_search m item atom_h atom_a rest hb = Inr (found, hb')"
  using assms
  by (auto simp: nth_err_def Let_def x_accepts_def hbond_thresholds_def hbond_record_def
      hbond_key_def split: if_splits option.splits)

lemma hbond_search_result:
  assumes "hbond_search m item atom_h atom_a xs hb = Inr (found, hb')"
  shows "if found
         then \<exists>pre x post. xs = pre @ x # post \<and> x_accepts m atom_h atom_a x \<and>
                (\<forall>y\<in>set pre. \<not> x_accepts m atom_h atom_a y) \<and>
                hb' = AList.update (hbond_key m atom_h atom_a x)
                        (hbond_record m item atom_h atom_a x) hb
         else hb' = hb \<and> (\<forall>y\<in>set xs. \<not> x_accepts m atom_h atom_a y)"
  using assms
proof (induction xs)
  case Nil
  then show ?case by simp
next
  case (Cons x rest)
  show ?case
  proof (cases "x_accepts m atom_h atom_a x")
    case True
    with hbond_search_Cons[OF Cons.prems]
    have f: "found" and h: "hb' = AList.update (hbond_key m atom_h atom_a x)
                        (hbond_record m item atom_h atom_a x) hb" by simp_all
    have "x # rest = [] @ x # rest \<and> x_accepts m atom_h atom_a x \<and>
        (\<forall>y\<in>set []. \<not> x_accepts m atom_h atom_a y) \<and>
        hb' = AList.update (hbond_key m atom_h atom_a x) (hbond_record m item atom_h atom_a x) hb"
      using True h by simp
    then show ?thesis using f by metis
  next
    case False
    with hbond_search_Cons[OF Cons.prems]
    have r: "hbond_search m item atom_h atom_a rest hb = Inr (found, hb')" by simp
    note ih = Cons.IH[OF r]
    show ?thesis
    proof (cases found)
      case True
      with ih obtain pre y post where p: "rest = pre @ y # post" "x_accepts m atom_h atom_a y"
        "\<forall>z\<in>set pre. \<not> x_accepts m atom_h atom_a z"
        "hb' = AList.update (hbond_key m atom_h atom_a y) (hbond_record m item atom_h atom_a y) hb"
        by auto
      then have "x # rest = (x # pre) @ y # post \<and> x_accepts m atom_h atom_a y \<and>
        (\<forall>z\<in>set (x # pre). \<not> x_accepts m atom_h atom_a z) \<and>
        hb' = AList.update (hbond_key m atom_h atom_a y) (hbond_record m item atom_h atom_a y) hb"
        using False by simp
      then show ?thesis using True by metis
    next
      case f: False
      with ih False show ?thesis by simp
    qed
  qed
qed

lemma is_hbond_cases:
  assumes "is_hbond m item hb = Inr (found, hb')"
  shows "(\<not> found \<and> hb' = hb) \<or>
         (\<exists>atom_h atom_a xs. m_fsc0 m (atom_i_seq atom_h) = Some xs \<and>
            hbond_search m item atom_h atom_a xs hb = Inr (found, hb'))"
  using assms
  by (auto simp: is_hbond_def ebind_def get_err_def
      split: sum.splits if_splits prod.splits option.splits)


lemma hbond_record_within:
  "x_accepts m atom_h atom_a x \<Longrightarrow>
     record_within_thresholds (hbond_record m item atom_h atom_a x)"
  by (auto simp: x_accepts_def record_within_thresholds_def hbond_record_def
      split: option.splits)

lemma hbond_search_within:
  assumes "hbond_search m item atom_h atom_a xs hb = Inr (found, hb')" and "all_within hb"
  shows "all_within hb'"
proof (cases found)
  case True
  with hbond_search_result[OF assms(1)] obtain x where
    x: "x_accepts m atom_h atom_a x"
    "hb' = AList.update (hbond_key m atom_h atom_a x) (hbond_record m item atom_h atom_a x) hb"
    by auto
  from set_update_subset[of "hbond_key m atom_h atom_a x"
      "hbond_record m item atom_h atom_a x" hb] assms(2) hbond_record_within[OF x(1)]
  show ?thesis unfolding x(2) all_within_def by auto
next
  case False
  with hbond_search_result[OF assms(1)] assms(2) show ?thesis by simp
qed

lemma is_hbond_within:
  assumes "is_hbond m item hb = Inr (found, hb')" and "all_within hb"
  shows "all_within hb'"
  using is_hbond_cases[OF assms(1)] assms(2) hbond_search_within by blast

lemma find_hbonds_step_within:
  assumes "find_hbonds_step m item st = Inr st'" and "all_within (hbonds_dict_of st)"
  shows "all_within (hbonds_dict_of st')"
  using assms
  by (auto simp: find_hbonds_step_def ebind_def dest: is_hbond_within
      split: if_splits sum.splits prod.splits)

lemma process_item_hbonds_within:
  assumes "process_item m find_clashes find_hbonds item st = Inr st'"
    and "all_within (hbonds_dict_of st)"
  shows "all_within (hbonds_dict_of st')"
proof -
  from assms(1) obtain st1 where
    s1: "(if find_hbonds then find_hbonds_step m item st else Inr st) = Inr st1"
    and s2: "(if find_clashes then find_clashes_step m item st1 else Inr st1) = Inr st'"
    by (auto simp: process_item_def ebind_def split: sum.splits)
  from s1 assms(2) have "all_within (hbonds_dict_of st1)"
    by (auto dest: find_hbonds_step_within split: if_splits)
  with s2 show ?thesis by (auto dest: find_clashes_step_hbonds split: if_splits)
qed

lemma process_items_hbonds_within:
  assumes "process_items m find_clashes find_hbonds items st = Inr st'"
    and "all_within (hbonds_dict_of st)"
  shows "all_within (hbonds_dict_of st')"
  using assms
proof (induction items arbitrary: st)
  case Nil
  then show ?case by simp
next
  case (Cons item rest)
  then obtain st1 where s1: "process_item m find_clashes find_hbonds item st = Inr st1"
    and s2: "process_items m find_clashes find_hbonds rest st1 = Inr st'"
    by (auto split: sum.splits)
  from Cons.IH[OF s2 process_item_hbonds_within[OF s1 Cons.prems(2)]] show ?case .
qed

lemma pipeline_hbonds_within:
  assumes "process_nonbonded_proxies m find_clashes find_hbonds mgr = Inr mgr'"
  shows "\<exists>hb. mgr_hbonds mgr' = Some hb \<and> all_within hb"
proof (cases "m_sorted m")
  case None
  with assms show ?thesis
    by (simp add: process_nonbonded_proxies_def clashes_init_def ebind_def)
next
  case (Some items)
  with assms obtain cl0 st where
    lp: "process_items m find_clashes find_hbonds items
               \<lparr>clashes_of = cl0, hbonds_dict_of = [], mult_clash_dict_of = []\<rparr> = Inr st"
    and res: "mgr_hbonds mgr' = Some (hbonds_dict_of st)"
    by (auto simp: process_nonbonded_proxies_def ebind_def hbonds_init_def split: sum.splits)
  from process_items_hbonds_within[OF lp] have "all_within (hbonds_dict_of st)"
    by (simp add: all_within_def)
  with res show ?thesis by simp
qed

lemma vec_length_x: "vec_length (a, 0, 0) = \<bar>a\<bar>"
  by (simp add: vec_length_def vec_dot_def)

lemma vec_angle_opposite:
  assumes "a < 0" and "0 < b"
  shows "vec_angle (a, 0, 0) (b, 0, 0) = Some pi"
proof -
  have "sqrt (a * a * (b * b)) = \<bar>a\<bar> * \<bar>b\<bar>" by (simp add: real_sqrt_mult)
  with assms have "a * b / sqrt (a * a * (b * b)) = - 1" by (simp add: field_simps)
  with assms show ?thesis by (simp add: vec_angle_def vec_dot_def)
qed

lemma degrees_pi: "degrees pi = 180"
  by (simp add: degrees_def)

lemma element_O: "py_upper (py_strip '' O'') = ''O''"
  by code_simp

lemmas hbond_defs =
  is_hbond_def residue_groups_rt_mx_ij_def approx_equal_def vec_sub_def vec_length_x
  vec_angle_opposite degrees_pi element_O

lemma donor_loop:
  "process_items donor_model True True donor_items
      \<lparr>clashes_of = [], hbonds_dict_of = [], mult_clash_dict_of = []\<rparr> =
     Inr \<lparr>clashes_of = [],
          hbonds_dict_of =
            [((0, 1, 3), \<lparr>hb_h_a_distance = 19 / 10, hb_x_a_distance = 29 / 10,
                hb_x_h_a_angle = 180,
                hb_symop_str = [], hb_symop = None, hb_vdw_sum = 11 / 5\<rparr>),
             ((0, 1, 2), \<lparr>hb_h_a_distance = 2, hb_x_a_distance = 3, hb_x_h_a_angle = 180,
                hb_symop_str = [], hb_symop = None, hb_vdw_sum = 11 / 5\<rparr>)],
          mult_clash_dict_of = []\<rparr>"
  by (simp add: donor_model_def donor_items_def donor_atoms_def pipeline_defs hbond_defs)


lemma donor_run:
  "process_nonbonded_proxies donor_model True True manager_init =
     Inr \<lparr>mgr_clashes = Some [],
          mgr_hbonds = Some
            [((0, 1, 3), \<lparr>hb_h_a_distance = 19 / 10, hb_x_a_distance = 29 / 10,
                hb_x_h_a_angle = 180,
                hb_symop_str = [], hb_symop = None, hb_vdw_sum = 11 / 5\<rparr>),
             ((0, 1, 2), \<lparr>hb_h_a_distance = 2, hb_x_a_distance = 3, hb_x_h_a_angle = 180,
                hb_symop_str = [], hb_symop = None, hb_vdw_sum = 11 / 5\<rparr>)]\<rparr>"
proof -
  have s: "m_sorted donor_model = Some donor_items" by (simp add: donor_model_def)
  show ?thesis
    unfolding process_nonbonded_proxies_def s
    by (simp add: registry_defs donor_loop process_clashes_def manager_init_def)
qed

lemma donor_search:
  "hbond_search donor_model (donor_items ! 1) (donor_atoms ! 1) (donor_atoms ! 2) [0] [] =
     Inr (True, [((0, 1, 2), \<lparr>hb_h_a_distance = 2, hb_x_a_distance = 3, hb_x_h_a_angle = 180,
                hb_symop_str = [], hb_symop = None, hb_vdw_sum = 11 / 5\<rparr>)])"
  by (simp add: donor_model_def donor_items_def donor_atoms_def nth_err_def Let_def hbond_defs)

lemma donor_is_hbond:
  "is_hbond donor_model (donor_items ! 1) [] =
     Inr (True, [((0, 1, 2), \<lparr>hb_h_a_distance = 2, hb_x_a_distance = 3, hb_x_h_a_angle = 180,
                hb_symop_str = [], hb_symop = None, hb_vdw_sum = 11 / 5\<rparr>)])"
  by (simp add: donor_model_def donor_items_def donor_atoms_def nth_err_def get_err_def
      ebind_def Let_def hbond_defs)

text \<open>
  Claim C6: every record of the hydrogen-bond registry the pipeline returns has its
  H...A distance in \<open>[1.2, 2.2]\<close>, its X...A distance in \<open>[2.2, 3.2]\<close> and its angle at
  least 110 degrees; a single candidate X is recorded exactly when its geometry passes
  the three thresholds, and otherwise the registry is left as it was. The thresholds
  accept (2.0, 2.8, 150) and reject an angle of 100 and an H...A distance of 2.3.
\<close>

theorem hbond_records_within_thresholds:
  assumes "process_nonbonded_proxies m find_clashes find_hbonds mgr = Inr mgr'"
  shows "(\<exists>hb. mgr_hbonds mgr' = Some hb \<and>
            (\<forall>(k, r)\<in>set hb.
               12 / 10 \<le> hb_h_a_distance r \<and> hb_h_a_distance r \<le> 22 / 10 \<and>
               22 / 10 \<le> hb_x_a_distance r \<and> hb_x_a_distance r \<le> 32 / 10 \<and>
               110 \<le> hb_x_h_a_angle r))
         \<and> (\<forall>item atom_h atom_a iseq_x hb found hb'.
               hbond_search m item atom_h atom_a [iseq_x] hb = Inr (found, hb') \<longrightarrow>
               (found \<longleftrightarrow> x_accepts m atom_h atom_a iseq_x) \<and> (\<not> found \<longrightarrow> hb' = hb))
         \<and> hbond_thresholds 2 (28 / 10) 150
         \<and> \<not> hbond_thresholds 2 (28 / 10) 100
         \<and> \<not> hbond_thresholds (23 / 10) (28 / 10) 150"
proof -
  from pipeline_hbonds_within[OF assms] have
    "\<exists>hb. mgr_hbonds mgr' = Some hb \<and>
            (\<forall>(k, r)\<in>set hb.
               12 / 10 \<le> hb_h_a_distance r \<and> hb_h_a_distance r \<le> 22 / 10 \<and>
               22 / 10 \<le> hb_x_a_distance r \<and> hb_x_a_distance r \<le> 32 / 10 \<and>
               110 \<le> hb_x_h_a_angle r)"
    by (auto simp: all_within_def record_within_thresholds_def hbond_thresholds_def)
  moreover have "(found \<longleftrightarrow> x_accepts m atom_h atom_a iseq_x) \<and> (\<not> found \<longrightarrow> hb' = hb)"
    if "hbond_search m item atom_h atom_a [iseq_x] hb = Inr (found, hb')"
    for item atom_h atom_a iseq_x hb found hb'
    using hbond_search_result[OF that] by (cases found) (auto simp: Cons_eq_append_conv)
  moreover have "hbond_thresholds 2 (28 / 10) 150" "\<not> hbond_thresholds 2 (28 / 10) 100"
    "\<not> hbond_thresholds (23 / 10) (28 / 10) 150"
    by (simp_all add: hbond_thresholds_def)
  ultimately show ?thesis by blast
qed

theorem hbond_records_within_thresholds_witness:
  "process_nonbonded_proxies donor_model True True manager_init =
     Inr \<lparr>mgr_clashes = Some [],
          mgr_hbonds = Some
            [((0, 1, 3), \<lparr>hb_h_a_distance = 19 / 10, hb_x_a_distance = 29 / 10,
                hb_x_h_a_angle = 180,
                hb_symop_str = [], hb_symop = None, hb_vdw_sum = 11 / 5\<rparr>),
             ((0, 1, 2), \<lparr>hb_h_a_distance = 2, hb_x_a_distance = 3, hb_x_h_a_angle = 180,
                hb_symop_str = [], hb_symop = None, hb_vdw_sum = 11 / 5\<rparr>)]\<rparr>
   \<and> hbond_search donor_model (donor_items ! 1) (donor_atoms ! 1) (donor_atoms ! 2) [0] [] =
     Inr (True, [((0, 1, 2), \<lparr>hb_h_a_distance = 2, hb_x_a_distance = 3, hb_x_h_a_angle = 180,
                hb_symop_str = [], hb_symop = None, hb_vdw_sum = 11 / 5\<rparr>)])
   \<and> x_accepts donor_model (donor_atoms ! 1) (donor_atoms ! 2) 0"
proof -
  from hbond_records_within_thresholds[OF donor_run] donor_search
  have "x_accepts donor_model (donor_atoms ! 1) (donor_atoms ! 2) 0" by blast
  with donor_run donor_search show ?thesis by blast
qed

text \<open>
  Claim C7, as amended: one call of the hydrogen-bond test, that is one candidate pair,
  writes at most one record: either the registry is unchanged, or the record of the first
  atom in the hydrogen's bonded list that passes the thresholds is stored and the atoms
  after it are not looked at.
\<close>

theorem is_hbond_first_x_wins:
  assumes "is_hbond m item hb = Inr (found, hb')"
  shows "(\<not> found \<and> hb' = hb) \<or>
         (found \<and>
          (\<exists>atom_h atom_a pre x post.
             m_fsc0 m (atom_i_seq atom_h) = Some (pre @ x # post) \<and>
             x_accepts m atom_h atom_a x \<and> (\<forall>y\<in>set pre. \<not> x_accepts m atom_h atom_a y) \<and>
             hb' = AList.update (hbond_key m atom_h atom_a x)
                     (hbond_record m item atom_h atom_a x) hb))"
proof (cases found)
  case False
  from is_hbond_cases[OF assms] show ?thesis
  proof
    assume "\<not> found \<and> hb' = hb" then show ?thesis by simp
  next
    assume "\<exists>atom_h atom_a xs. m_fsc0 m (atom_i_seq atom_h) = Some xs \<and>
            hbond_search m item atom_h atom_a xs hb = Inr (found, hb')"
    then obtain atom_h atom_a xs where "hbond_search m item atom_h atom_a xs hb = Inr (found, hb')"
      by blast
    from hbond_search_result[OF this] False show ?thesis by simp
  qed
next
  case True
  with is_hbond_cases[OF assms] obtain atom_h atom_a xs where
    x: "m_fsc0 m (atom_i_seq atom_h) = Some xs"
    "hbond_search m item atom_h atom_a xs hb = Inr (found, hb')" by blast
  from hbond_search_result[OF x(2)] True obtain pre y post where
    p: "xs = pre @ y # post" "x_accepts m atom_h atom_a y"
    "\<forall>z\<in>set pre. \<not> x_accepts m atom_h atom_a z"
    "hb' = AList.update (hbond_key m atom_h atom_a y) (hbond_record m item atom_h atom_a y) hb"
    by auto
  from x(1) p have "m_fsc0 m (atom_i_seq atom_h) = Some (pre @ y # post) \<and>
             x_accepts m atom_h atom_a y \<and> (\<forall>z\<in>set pre. \<not> x_accepts m atom_h atom_a z) \<and>
             hb' = AList.update (hbond_key m atom_h atom_a y)
                     (hbond_record m item atom_h atom_a y) hb" by simp
  then show ?thesis using True by blast
qed


theorem is_hbond_first_x_wins_witness:
  "is_hbond donor_model (donor_items ! 1) [] =
     Inr (True, [((0, 1, 2), \<lparr>hb_h_a_distance = 2, hb_x_a_distance = 3, hb_x_h_a_angle = 180,
                hb_symop_str = [], hb_symop = None, hb_vdw_sum = 11 / 5\<rparr>)])
   \<and> (\<exists>atom_h atom_a pre x post.
         m_fsc0 donor_model (atom_i_seq atom_h) = Some (pre @ x # post) \<and>
         x_accepts donor_model atom_h atom_a x \<and>
         [((0, 1, 2), \<lparr>hb_h_a_distance = 2, hb_x_a_distance = 3, hb_x_h_a_angle = 180,
                hb_symop_str = [], hb_symop = None, hb_vdw_sum = 11 / 5\<rparr>)] =
           AList.update (hbond_key donor_model atom_h atom_a x)
             (hbond_record donor_model (donor_items ! 1) atom_h atom_a x) [])"
  using is_hbond_first_x_wins[OF donor_is_hbond] donor_is_hbond by blast

text \<open>The hydrogen 1 meets two acceptors in two candidate pairs, and the registry the
  pipeline returns holds a record for each.\<close>

theorem one_hbond_per_hydrogen_counterexample:
  "\<exists>mgr' hb k1 k2. process_nonbonded_proxies donor_model True True manager_init = Inr mgr' \<and>
      mgr_hbonds mgr' = Some hb \<and> k1 \<in> fst ` set hb \<and> k2 \<in> fst ` set hb \<and>
      k1 \<noteq> k2 \<and> fst (snd k1) = fst (snd k2)"
proof -
  let ?hb = "[((0::nat, 1::nat, 3::nat), \<lparr>hb_h_a_distance = 19 / 10, hb_x_a_distance = 29 / 10,
                hb_x_h_a_angle = 180,
                hb_symop_str = [], hb_symop = None, hb_vdw_sum = 11 / 5\<rparr>),
             ((0, 1, 2), \<lparr>hb_h_a_distance = 2, hb_x_a_distance = 3, hb_x_h_a_angle = 180,
                hb_symop_str = [], hb_symop = None, hb_vdw_sum = 11 / 5\<rparr>)]"
  have "(0, 1, 2) \<in> fst ` set ?hb" "(0, 1, 3) \<in> fst ` set ?hb"
    "(0::nat, 1::nat, 2::nat) \<noteq> (0, 1, 3)" "fst (snd (0::nat, 1::nat, 2::nat)) = fst (snd (0::nat, 1::nat, 3::nat))"
    by simp_all
  with donor_run show ?thesis
    by (metis manager.select_convs(2))
qed



subsection \<open>Clashes with a common atom\<close>

lemma cos_vec_x:
  assumes "u \<noteq> v" and "w \<noteq> u / 2 + v / 2"
  shows "cos_vec (u, 0, 0) (v, 0, 0) (w, 0, 0) = 1"
proof -
  define a where "a = w - (u / 2 + v / 2)"
  define b where "b = u - v"
  have ab: "a \<noteq> 0" "b \<noteq> 0" using assms by (simp_all add: a_def b_def)
  have n: "vec_normalize (x, 0, 0) = Some (x / \<bar>x\<bar>, 0, 0)" if "x \<noteq> 0" for x
    using that by (simp add: vec_normalize_def vec_length_def vec_dot_def vec_div_def)
  have v1: "vec_sub (w, 0, 0) (vec_add (vec_div (u, 0, 0) 2) (vec_div (v, 0, 0) 2)) = (a, 0, 0)"
    by (simp add: vec_sub_def vec_add_def vec_div_def a_def)
  have v2: "vec_sub (u, 0, 0) (v, 0, 0) = (b, 0, 0)"
    by (simp add: vec_sub_def b_def)
  have "\<bar>a / \<bar>a\<bar> * (b / \<bar>b\<bar>)\<bar> = 1" using ab by (simp add: abs_mult)
  then show ?thesis
    unfolding cos_vec_def Let_def v1 v2 by (simp add: n ab vec_dot_def)
qed

lemma line_loop:
  "process_items line_model True True line_items
      \<lparr>clashes_of = [], hbonds_dict_of = [], mult_clash_dict_of = []\<rparr> =
     Inr \<lparr>clashes_of = line_registry, hbonds_dict_of = [],
          mult_clash_dict_of = [(0, [3, 1, 2]), (3, [0]), (1, [0]), (2, [0])]\<rparr>"
  by (simp add: line_model_def line_items_def line_registry_def pipeline_defs)

lemma line_verdict_3_1: "inline_verdict line_model line_registry 0 3 (Suc 0) = Inr [(0, 1)]"
  by (simp add: line_model_def line_registry_def resolver_defs cos_vec_x)

lemma line_verdict_3_2: "inline_verdict line_model line_registry 0 3 2 = Inr []"
  by (simp add: line_model_def line_registry_def resolver_defs)

lemma line_verdict_1_2: "inline_verdict line_model line_registry 0 (Suc 0) 2 = Inr [(0, 2)]"
  by (simp add: line_model_def line_registry_def resolver_defs cos_vec_x)

lemma line_scan:
  "collect (scan_entry line_model line_registry) [(0, [3, 1, 2]), (3, [0]), (1, [0]), (2, [0])]
     = Inr [(0, 1), (0, 2)]"
  by (simp add: scan_entry_def index_pairs_3 line_verdict_3_1 line_verdict_3_2 line_verdict_1_2)

lemma line_resolve:
  "process_clashes line_model line_registry [(0, [3, 1, 2]), (3, [0]), (1, [0]), (2, [0])] =
     Inr [((0, 3), \<lparr>c_model_distance = 1 / 2, c_vdw_sum = 3, c_overlap = 5 / 2,
                c_symop_str = [], c_symop = None\<rparr>)]"
  unfolding process_clashes_def line_scan
  by (simp add: line_registry_def remove_clash_def iseq_tuple_is_clashing_def)

lemma line_run:
  "process_nonbonded_proxies line_model True True manager_init =
     Inr \<lparr>mgr_clashes = Some [((0, 3), \<lparr>c_model_distance = 1 / 2, c_vdw_sum = 3,
                 c_overlap = 5 / 2, c_symop_str = [], c_symop = None\<rparr>)],
          mgr_hbonds = Some []\<rparr>"
proof -
  have s: "m_sorted line_model = Some line_items" by (simp add: line_model_def)
  show ?thesis
    unfolding process_nonbonded_proxies_def s
    using line_resolve by (simp add: registry_defs line_loop manager_init_def)
qed

lemma sym_loop:
  "process_items sym_model True True sym_items
      \<lparr>clashes_of = [], hbonds_dict_of = [], mult_clash_dict_of = []\<rparr> =
     Inr \<lparr>clashes_of = sym_registry, hbonds_dict_of = [],
          mult_clash_dict_of = [(0, [1, 2]), (1, [0]), (2, [0])]\<rparr>"
  by (simp add: sym_model_def sym_items_def sym_registry_def pipeline_defs)

lemma sym_verdict_1_2: "inline_verdict sym_model sym_registry 0 (Suc 0) 2 = Inr [(0, 2)]"
  by (simp add: sym_model_def sym_registry_def resolver_defs cos_vec_x)

lemma sym_verdict_2_1: "inline_verdict sym_model sym_registry 0 2 (Suc 0) = Inr []"
  by (simp add: sym_model_def sym_registry_def resolver_defs)

lemma sym_scan:
  "collect (scan_entry sym_model sym_registry) [(0, [1, 2]), (1, [0]), (2, [0])] = Inr [(0, 2)]"
  by (simp add: scan_entry_def index_pairs_2 sym_verdict_1_2)

lemma sym_resolve:
  "process_clashes sym_model sym_registry [(0, [1, 2]), (1, [0]), (2, [0])] =
     Inr [((0, 1), \<lparr>c_model_distance = 2, c_vdw_sum = 3, c_overlap = 1,
                c_symop_str = [], c_symop = None\<rparr>)]"
  unfolding process_clashes_def sym_scan
  by (simp add: sym_registry_def remove_clash_def iseq_tuple_is_clashing_def)

lemma sym_run:
  "process_nonbonded_proxies sym_model True True manager_init =
     Inr \<lparr>mgr_clashes = Some [((0, 1), \<lparr>c_model_distance = 2, c_vdw_sum = 3, c_overlap = 1,
                c_symop_str = [], c_symop = None\<rparr>)],
          mgr_hbonds = Some []\<rparr>"
proof -
  have s: "m_sorted sym_model = Some sym_items" by (simp add: sym_model_def)
  show ?thesis
    unfolding process_nonbonded_proxies_def s
    using sym_resolve by (simp add: registry_defs sym_loop manager_init_def)
qed


lemma collect_member:
  assumes "collect f xs = Inr rs" and "x \<in> set xs"
  shows "\<exists>r. f x = Inr r \<and> set r \<subseteq> set rs"
  using assms
proof (induction xs arbitrary: rs)
  case Nil
  then show ?case by simp
next
  case (Cons y ys)
  from Cons.prems(1) obtain r rs' where y: "f y = Inr r" and ys: "collect f ys = Inr rs'"
    and rs: "rs = r @ rs'"
    by (auto split: sum.splits)
  show ?case
  proof (cases "x = y")
    case True
    with y rs show ?thesis by auto
  next
    case False
    with Cons.prems(2) have "x \<in> set ys" by simp
    from Cons.IH[OF ys this] rs show ?thesis by auto
  qed
qed

lemma index_pairs_member:
  assumes "i < j" and "j < n"
  shows "(i, j) \<in> set (index_pairs n)"
proof -
  from assms have "i \<in> set [0 ..< n - 1]" "j \<in> set [i + 1 ..< n]" by auto
  then show ?thesis unfolding index_pairs_def by (auto simp del: set_upt)
qed

lemma scan_entry_member:
  assumes "collect (scan_entry m cl) mult = Inr removed" and "(c, partners) \<in> set mult"
    and "i < j" and "j < length partners"
  shows "\<exists>r. inline_verdict m cl c (partners ! i) (partners ! j) = Inr r \<and> set r \<subseteq> set removed"
proof -
  from collect_member[OF assms(1,2)] obtain r1 where
    r1: "scan_entry m cl (c, partners) = Inr r1" "set r1 \<subseteq> set removed" by blast
  from assms(3,4) have n: "\<not> length partners \<le> 1" by simp
  with r1(1) have
    "collect (\<lambda>(i, j). inline_verdict m cl c (partners ! i) (partners ! j))
       (index_pairs (length partners)) = Inr r1"
    by (simp add: scan_entry_def Let_def)
  from collect_member[OF this index_pairs_member[OF assms(3,4)]] r1(2)
  show ?thesis by auto
qed

lemma map_of_remove_clash: "map_of (remove_clash k cl) = (map_of cl)(k := None)"
  by (auto simp: remove_clash_def iseq_tuple_is_clashing_def delete_conv')

lemma map_of_fold_remove_clash:
  "map_of (fold remove_clash ks cl) k = (if k \<in> set ks then None else map_of cl k)"
  by (induction ks arbitrary: cl) (auto simp: map_of_remove_clash)

lemma inline_verdict_marks:
  assumes "m_fsc0 m p2 = Some bonded_2" and "p1 \<in> set bonded_2"
    and "p1 < length (m_sites_cart m)" and "p2 < length (m_sites_cart m)"
    and "c < length (m_sites_cart m)"
    and "map_of cl (sorted_tuple c p1) = Some r1" and "map_of cl (sorted_tuple c p2) = Some r2"
    and "c_symop r1 = None"
    and "\<bar>cos_vec (m_sites_cart m ! p1) (m_sites_cart m ! p2) (m_sites_cart m ! c)\<bar> > 707 / 1000"
    and "m_sites_cart m ! p1 \<noteq> m_sites_cart m ! p2"
  shows "inline_verdict m cl c p1 p2 =
     Inr [if c_model_distance r1 < c_model_distance r2 then sorted_tuple c p2
          else sorted_tuple c p1]"
  using assms
  by (simp add: inline_verdict_def ebind_def get_err_def nth_err_def Let_def
      iseq_tuple_is_sym_clash_def iseq_tuple_is_clashing_def get_model_distance_def)

text \<open>
  Claim C2, as amended: when the common atom \<open>c\<close> has the partners \<open>p1\<close> before \<open>p2\<close> in
  its list, \<open>p1\<close> is bonded to \<open>p2\<close>, both keys are in the registry, neither record is
  symmetry-derived, the score of the three positions is above 0.707 and
  the two partner positions differ, then this triple marks exactly one key, that of
  \<open>(c, p2)\<close> when the model distance of \<open>(c, p1)\<close> is the smaller and that of \<open>(c, p1)\<close>
  otherwise, and the marked record is not in the registry after the pass. A key is in
  the registry after the pass exactly when it was there before and no triple marked it.
\<close>

theorem multi_clash_resolution:
  assumes "(c, partners) \<in> set mult" and "i < j" and "j < length partners"
    and "m_fsc0 m (partners ! j) = Some bonded_2" and "partners ! i \<in> set bonded_2"
    and "partners ! i < length (m_sites_cart m)" and "partners ! j < length (m_sites_cart m)"
    and "c < length (m_sites_cart m)"
    and "map_of cl (sorted_tuple c (partners ! i)) = Some r1"
    and "map_of cl (sorted_tuple c (partners ! j)) = Some r2"
    and "c_symop r1 = None" and "c_symop r2 = None"
    and "\<bar>cos_vec (m_sites_cart m ! (partners ! i)) (m_sites_cart m ! (partners ! j))
            (m_sites_cart m ! c)\<bar> > 707 / 1000"
    and "m_sites_cart m ! (partners ! i) \<noteq> m_sites_cart m ! (partners ! j)"
    and "process_clashes m cl mult = Inr cl'"
  shows "\<exists>removed marked.
           marked = (if c_model_distance r1 < c_model_distance r2
                     then sorted_tuple c (partners ! j) else sorted_tuple c (partners ! i)) \<and>
           inline_verdict m cl c (partners ! i) (partners ! j) = Inr [marked] \<and>
           collect (scan_entry m cl) mult = Inr removed \<and> marked \<in> set removed \<and>
           map_of cl' marked = None \<and>
           (\<forall>k. map_of cl' k = (if k \<in> set removed then None else map_of cl k))"
proof -
  let ?marked = "if c_model_distance r1 < c_model_distance r2
                 then sorted_tuple c (partners ! j) else sorted_tuple c (partners ! i)"
  from assms(15) obtain removed where
    sc: "collect (scan_entry m cl) mult = Inr removed" and cl': "cl' = fold remove_clash removed cl"
    by (auto simp: process_clashes_def split: sum.splits)
  have v: "inline_verdict m cl c (partners ! i) (partners ! j) = Inr [?marked]"
    by (rule inline_verdict_marks[OF assms(4-11) assms(13,14)])
  from scan_entry_member[OF sc assms(1-3)] v have mem: "?marked \<in> set removed" by auto
  have all: "\<forall>k. map_of cl' k = (if k \<in> set removed then None else map_of cl k)"
    unfolding cl' by (simp add: map_of_fold_remove_clash)
  from all have "map_of cl' ?marked = (if ?marked \<in> set removed then None else map_of cl ?marked)"
    by (rule spec)
  with mem have "map_of cl' ?marked = None" by (simp only: if_True)
  with v sc mem all show ?thesis by blast
qed


theorem multi_clash_resolution_witness:
  "(0, [3, 1, 2]) \<in> set [(0, [3, 1, 2]), (3, [0]), (1, [0]), (2, [0 :: nat])]
   \<and> process_clashes line_model line_registry [(0, [3, 1, 2]), (3, [0]), (1, [0]), (2, [0])] =
       Inr [((0, 3), \<lparr>c_model_distance = 1 / 2, c_vdw_sum = 3, c_overlap = 5 / 2,
                c_symop_str = [], c_symop = None\<rparr>)]
   \<and> (\<exists>removed.
         inline_verdict line_model line_registry 0 1 2 = Inr [(0, 2)] \<and>
         collect (scan_entry line_model line_registry)
           [(0, [3, 1, 2]), (3, [0]), (1, [0]), (2, [0])] = Inr removed \<and>
         (0, 2) \<in> set removed \<and>
         map_of [((0 :: nat, 3 :: nat),
                  \<lparr>c_model_distance = 1 / 2, c_vdw_sum = 3, c_overlap = 5 / 2,
                   c_symop_str = [], c_symop = None\<rparr>)] (0, 2) = None)"
proof -
  let ?r1 = "\<lparr>c_model_distance = 1, c_vdw_sum = 3, c_overlap = 2,
                c_symop_str = [], c_symop = None\<rparr>"
  let ?r2 = "\<lparr>c_model_distance = 3 / 2, c_vdw_sum = 3, c_overlap = 3 / 2,
                c_symop_str = [], c_symop = None\<rparr>"
  let ?partners = "[3, 1, 2 :: nat]"
  let ?mult = "[(0, ?partners), (3, [0]), (1, [0]), (2, [0 :: nat])]"
  let ?cl' = "[((0 :: nat, 3 :: nat), \<lparr>c_model_distance = 1 / 2, c_vdw_sum = 3,
                 c_overlap = 5 / 2, c_symop_str = [], c_symop = None\<rparr>)]"
  have p: "?partners ! 1 = 1" "?partners ! 2 = 2" by simp_all
  have h1: "(0, ?partners) \<in> set ?mult" by simp
  have h2: "(1 :: nat) < 2" by simp
  have h3: "2 < length ?partners" by simp
  have h4: "m_fsc0 line_model (?partners ! 2) = Some [1]" by (simp add: line_model_def)
  have h5: "?partners ! 1 \<in> set [1 :: nat]" by simp
  have h6: "?partners ! 1 < length (m_sites_cart line_model)"
    "?partners ! 2 < length (m_sites_cart line_model)" "0 < length (m_sites_cart line_model)"
    by (simp_all add: line_model_def)
  have h7: "map_of line_registry (sorted_tuple 0 (?partners ! 1)) = Some ?r1"
    "map_of line_registry (sorted_tuple 0 (?partners ! 2)) = Some ?r2"
    by (simp_all add: line_registry_def sorted_tuple_def)
  have h8: "c_symop ?r1 = None" "c_symop ?r2 = None" by simp_all
  have h9: "\<bar>cos_vec (m_sites_cart line_model ! (?partners ! 1))
       (m_sites_cart line_model ! (?partners ! 2)) (m_sites_cart line_model ! 0)\<bar> > 707 / 1000"
    by (simp add: line_model_def cos_vec_x)
  have h10: "m_sites_cart line_model ! (?partners ! 1) \<noteq> m_sites_cart line_model ! (?partners ! 2)"
    by (simp add: line_model_def)
  from multi_clash_resolution[OF h1 h2 h3 h4 h5 h6 h7 h8 h9 h10 line_resolve]
  obtain removed marked where
    m1: "marked = (if c_model_distance ?r1 < c_model_distance ?r2
                   then sorted_tuple 0 (?partners ! 2) else sorted_tuple 0 (?partners ! 1))"
    and m2: "inline_verdict line_model line_registry 0 (?partners ! 1) (?partners ! 2)
               = Inr [marked]"
    and m3: "collect (scan_entry line_model line_registry) ?mult = Inr removed"
    and m4: "marked \<in> set removed"
    and m5: "map_of ?cl' marked = None"
    by blast
  from m1 have mk: "marked = (0, 2)" by (simp add: sorted_tuple_def)
  from m2 have v: "inline_verdict line_model line_registry 0 1 2 = Inr [(0, 2)]"
    unfolding mk p .
  from v m3 m4 m5 have
    "\<exists>removed.
         inline_verdict line_model line_registry 0 1 2 = Inr [(0, 2)] \<and>
         collect (scan_entry line_model line_registry) ?mult = Inr removed \<and>
         (0, 2) \<in> set removed \<and> map_of ?cl' (0, 2) = None"
    unfolding mk by blast
  with h1 line_resolve show ?thesis by blast
qed

text \<open>On the four atoms in line the triple of atom 0 with its partners 1 and 2 meets all
  conditions, yet neither \<open>(0, 1)\<close> nor \<open>(0, 2)\<close> is in the registry the pipeline returns:
  the triple with the partners 3 and 1 marks \<open>(0, 1)\<close>.\<close>

theorem multi_clash_both_removed_counterexample:
  "process_items line_model True True line_items
      \<lparr>clashes_of = [], hbonds_dict_of = [], mult_clash_dict_of = []\<rparr> =
     Inr \<lparr>clashes_of = line_registry, hbonds_dict_of = [],
          mult_clash_dict_of = [(0, [3, 1, 2]), (3, [0]), (1, [0]), (2, [0])]\<rparr>
   \<and> map_of line_registry (0, 1) \<noteq> None \<and> map_of line_registry (0, 2) \<noteq> None
   \<and> m_fsc0 line_model 2 = Some [1]
   \<and> \<bar>cos_vec (m_sites_cart line_model ! 1) (m_sites_cart line_model ! 2)
         (m_sites_cart line_model ! 0)\<bar> > 707 / 1000
   \<and> m_sites_cart line_model ! 1 \<noteq> m_sites_cart line_model ! 2
   \<and> process_nonbonded_proxies line_model True True manager_init =
     Inr \<lparr>mgr_clashes = Some [((0, 3), \<lparr>c_model_distance = 1 / 2, c_vdw_sum = 3,
                 c_overlap = 5 / 2, c_symop_str = [], c_symop = None\<rparr>)],
          mgr_hbonds = Some []\<rparr>"
proof -
  have "map_of line_registry (0, 1) \<noteq> None" "map_of line_registry (0, 2) \<noteq> None"
    by (simp_all add: line_registry_def)
  moreover have "m_fsc0 line_model 2 = Some [1]"
    "m_sites_cart line_model ! 1 \<noteq> m_sites_cart line_model ! 2"
    by (simp_all add: line_model_def)
  moreover have "\<bar>cos_vec (m_sites_cart line_model ! 1) (m_sites_cart line_model ! 2)
         (m_sites_cart line_model ! 0)\<bar> > 707 / 1000"
    by (simp add: line_model_def cos_vec_x)
  ultimately show ?thesis using line_loop line_run by blast
qed

text \<open>
  Claim C4: the code asks only whether the first of the two keys is symmetry-derived.
  Here the second key \<open>(0, 2)\<close> is symmetry-derived and the first is not: the score is
  computed, the triple marks \<open>(0, 2)\<close> and the pipeline removes it. With the two
  partners in the other order the same triple marks nothing.
\<close>

theorem symmetry_partner_still_resolved:
  "process_items sym_model True True sym_items
      \<lparr>clashes_of = [], hbonds_dict_of = [], mult_clash_dict_of = []\<rparr> =
     Inr \<lparr>clashes_of = sym_registry, hbonds_dict_of = [],
          mult_clash_dict_of = [(0, [1, 2]), (1, [0]), (2, [0])]\<rparr>
   \<and> map_of sym_registry (0, 2) =
       Some \<lparr>c_model_distance = 5 / 2, c_vdw_sum = 3, c_overlap = 1 / 2,
             c_symop_str = ''x-1,y,z'', c_symop = Some ''x-1,y,z''\<rparr>
   \<and> inline_verdict sym_model sym_registry 0 1 2 = Inr [(0, 2)]
   \<and> inline_verdict sym_model sym_registry 0 2 1 = Inr []
   \<and> process_nonbonded_proxies sym_model True True manager_init =
     Inr \<lparr>mgr_clashes = Some [((0, 1), \<lparr>c_model_distance = 2, c_vdw_sum = 3, c_overlap = 1,
                c_symop_str = [], c_symop = None\<rparr>)],
          mgr_hbonds = Some []\<rparr>"
proof -
  have "map_of sym_registry (0, 2) =
       Some \<lparr>c_model_distance = 5 / 2, c_vdw_sum = 3, c_overlap = 1 / 2,
             c_symop_str = ''x-1,y,z'', c_symop = Some ''x-1,y,z''\<rparr>"
    by (simp add: sym_registry_def)
  moreover have "inline_verdict sym_model sym_registry 0 1 2 = Inr [(0, 2)]"
    "inline_verdict sym_model sym_registry 0 2 1 = Inr []"
    using sym_verdict_1_2 sym_verdict_2_1 by simp_all
  ultimately show ?thesis using sym_loop sym_run by blast
qed


end
